theory Spec2Isabelle
  imports Main "HOL-Library.Word"
begin

unbundle bit_operations_syntax

section \<open>The opcode builder (runtime/lib/compiled/opcodes/builder.ts)\<close>

subsection \<open>Values the builder handles\<close>

text \<open>
  Every \<^verbatim>\<open>throw new Error(msg)\<close> of the builder, and every failing \<^verbatim>\<open>expect(val, msg)\<close>,
  is the value \<open>Error msg\<close>.
\<close>

datatype error = Error string

text \<open>
  Members of the \<^verbatim>\<open>Op\<close> enumeration (opcodes.ts) that the builder names: those of the
  methods embedded below and a few of their neighbours. The numbers behind the names are
  not among the sources, and nothing below depends on them. \<^verbatim>\<open>TargetOpcode\<close> is
  \<open>Jump | JumpIf | JumpUnless\<close> and \<^verbatim>\<open>RangeOpcode\<close> is \<open>Enter | EnterList\<close>.
\<close>

datatype Op =
    ReserveLocals | ReleaseLocals
  | SetComponentState | PushComponentArgs | CreateComponent
  | RegisterComponentDestructor | BeginComponentTransaction | CommitComponentTransaction
  | GetComponentSelf | GetComponentLayout | DidCreateElement | DidRenderLayout
  | PutIterator | EnterList | ExitList | Iterate
  | SetLocal | GetLocal | Pop
  | ChildScope | PopScope | PushDynamicScope | PopDynamicScope
  | Primitive | PushBlock | Enter | Exit | InvokeDynamic
  | Jump | JumpIf | JumpUnless

text \<open>
  One slot of the program's number array. A slot holds an opcode, an integer operand, the
  number \<^verbatim>\<open>NaN\<close> (what \<^verbatim>\<open>undefined - 4\<close> evaluates to), or nothing (a hole of the array).
\<close>

datatype cell = Opcode Op | Number int | NaN | Hole

subsection \<open>The program buffer\<close>

text \<open>
  Modelled from the spec: the class \<^verbatim>\<open>Program\<close> (environment.ts), of which the builder uses
  \<^verbatim>\<open>next\<close>, \<^verbatim>\<open>current\<close>, \<^verbatim>\<open>push\<close> and \<^verbatim>\<open>set\<close>. The spec calls it "the linear instruction
  stream: fixed-width instructions (opcode + up to three operands)", "append-only during
  compilation" and "position-addressable". An instruction is four consecutive slots, the
  width that \<^verbatim>\<open>Labels.patch\<close> subtracts from an end label; \<^verbatim>\<open>next\<close> is the offset at which
  the next instruction will be pushed and \<^verbatim>\<open>current\<close> the offset of the last one pushed.
  An operand that is left out or \<^verbatim>\<open>undefined\<close> (\<open>None\<close>) is stored as 0, the default the
  builder's own \<^verbatim>\<open>push\<close> declares. A store outside the array does what a JavaScript array
  does: beyond the end it extends the array with holes, at a negative index it leaves the
  slots alone.
\<close>

type_synonym Program = "cell list"

definition program_next :: "Program \<Rightarrow> int" where
  "program_next p = int (length p)"

definition program_current :: "Program \<Rightarrow> int" where
  "program_current p = int (length p) - 4"

definition store :: "int \<Rightarrow> cell \<Rightarrow> Program \<Rightarrow> Program" where
  "store i v p =
     (if i < 0 then p
      else if nat i < length p then p[nat i := v]
      else p @ replicate (nat i - length p) Hole @ [v])"

definition operand :: "cell option \<Rightarrow> cell" where
  "operand x = (case x of None \<Rightarrow> Number 0 | Some v \<Rightarrow> v)"

definition program_set ::
  "int \<Rightarrow> Op \<Rightarrow> cell option \<Rightarrow> cell option \<Rightarrow> cell option \<Rightarrow> Program \<Rightarrow> Program" where
  "program_set pos type op1 op2 op3 p =
     store (pos + 3) (operand op3)
       (store (pos + 2) (operand op2)
         (store (pos + 1) (operand op1)
           (store pos (Opcode type) p)))"

definition program_push :: "Op \<Rightarrow> cell \<Rightarrow> cell \<Rightarrow> cell \<Rightarrow> Program \<Rightarrow> int \<times> Program" where
  "program_push type op1 op2 op3 p = (int (length p), p @ [Opcode type, op1, op2, op3])"

subsection \<open>The label table (class Labels)\<close>

record jump_site =
  jump_at :: int
  jump_target :: string
  jump_Target :: Op

record range_site =
  range_at :: int
  range_start :: string
  range_end :: string
  range_Range :: Op

record iter_site =
  iter_at :: int
  iter_breaks :: string
  iter_start :: string
  iter_end :: string

text \<open>
  \<^verbatim>\<open>labels\<close> is \<^verbatim>\<open>dict<number>()\<close>, a dictionary with no keys of its own or inherited: a map
  from label names to offsets. The three lists hold the sites to patch, in the order
  they were recorded.
\<close>

record Labels =
  labels :: "string \<rightharpoonup> int"
  jumps :: "jump_site list"
  ranges :: "range_site list"
  iters :: "iter_site list"

definition new_Labels :: Labels where
  "new_Labels = \<lparr>labels = Map.empty, jumps = [], ranges = [], iters = []\<rparr>"

definition Labels_label :: "string \<Rightarrow> int \<Rightarrow> Labels \<Rightarrow> Labels" where
  "Labels_label name index l = l\<lparr>labels := (labels l)(name \<mapsto> index)\<rparr>"

definition Labels_iter :: "int \<Rightarrow> string \<Rightarrow> string \<Rightarrow> string \<Rightarrow> Labels \<Rightarrow> Labels" where
  "Labels_iter at breaks start end' l =
     l\<lparr>iters := iters l @
       [\<lparr>iter_at = at, iter_breaks = breaks, iter_start = start, iter_end = end'\<rparr>]\<rparr>"

definition Labels_jump :: "int \<Rightarrow> Op \<Rightarrow> string \<Rightarrow> Labels \<Rightarrow> Labels" where
  "Labels_jump at Target target l =
     l\<lparr>jumps := jumps l @ [\<lparr>jump_at = at, jump_target = target, jump_Target = Target\<rparr>]\<rparr>"

definition Labels_range :: "int \<Rightarrow> Op \<Rightarrow> string \<Rightarrow> string \<Rightarrow> Labels \<Rightarrow> Labels" where
  "Labels_range at Range' start end' l =
     l\<lparr>ranges := ranges l @
       [\<lparr>range_at = at, range_start = start, range_end = end', range_Range = Range'\<rparr>]\<rparr>"

text \<open>
  \<^verbatim>\<open>this.labels[name]\<close> is \<^verbatim>\<open>undefined\<close> for a name that was never placed (\<open>None\<close>), and
  \<^verbatim>\<open>this.labels[name] - 4\<close> is then \<^verbatim>\<open>NaN\<close>. Neither read raises.
\<close>

definition label_offset :: "Labels \<Rightarrow> string \<Rightarrow> cell option" where
  "label_offset l name = map_option Number (labels l name)"

definition label_offset_minus_4 :: "Labels \<Rightarrow> string \<Rightarrow> cell option" where
  "label_offset_minus_4 l name =
     (case labels l name of None \<Rightarrow> Some NaN | Some n \<Rightarrow> Some (Number (n - 4)))"

definition patch_jump :: "Labels \<Rightarrow> Program \<Rightarrow> jump_site \<Rightarrow> Program" where
  "patch_jump l opcodes j =
     program_set (jump_at j) (jump_Target j) (label_offset l (jump_target j)) None None opcodes"

definition patch_range :: "Labels \<Rightarrow> Program \<Rightarrow> range_site \<Rightarrow> Program" where
  "patch_range l opcodes r =
     program_set (range_at r) (range_Range r)
       (label_offset l (range_start r)) (label_offset_minus_4 l (range_end r)) None opcodes"

definition patch_iter :: "Labels \<Rightarrow> Program \<Rightarrow> iter_site \<Rightarrow> Program" where
  "patch_iter l opcodes i =
     program_set (iter_at i) Iterate
       (label_offset l (iter_breaks i)) (label_offset l (iter_start i))
       (label_offset_minus_4 l (iter_end i)) opcodes"

definition Labels_patch :: "Labels \<Rightarrow> Program \<Rightarrow> Program" where
  "Labels_patch l opcodes =
     foldl (patch_iter l) (foldl (patch_range l) (foldl (patch_jump l) opcodes (jumps l)) (ranges l))
       (iters l)"

subsection \<open>The builder's state (class BasicOpcodeBuilder)\<close>

text \<open>
  \<open>labelsStack\<close> is the \<^verbatim>\<open>Stack<Labels>\<close>, a list with its top first (see the label scopes
  below). \<open>constants\<close> is the constant pool of the environment, of a type left open: the
  builder only passes it to the pool's own operations. \<open>localsSize\<close> is the private field
  \<^verbatim>\<open>_localsSize\<close> that the getter of that name returns.
\<close>

record 'c BasicOpcodeBuilder =
  labelsStack :: "Labels list"
  constants :: 'c
  start :: int
  locals :: int
  localsSize :: int
  program :: Program

text \<open>
  A method that can throw returns the error or its result, together with the builder as
  the throw or the return leaves it (the builder and its program are mutated in place).
\<close>

type_synonym ('a, 'c) result = "(error + 'a) \<times> 'c BasicOpcodeBuilder"

definition pos :: "'c BasicOpcodeBuilder \<Rightarrow> int" where
  "pos b = program_current (program b)"

definition nextPos :: "'c BasicOpcodeBuilder \<Rightarrow> int" where
  "nextPos b = program_next (program b)"

definition local :: "'c BasicOpcodeBuilder \<Rightarrow> int \<times> 'c BasicOpcodeBuilder" where
  "local b =
     (let locals' = locals b;
          b1 = b\<lparr>locals := locals b + 1\<rparr>;
          b2 = (if localsSize b1 < locals b1 then b1\<lparr>localsSize := locals b1\<rparr> else b1)
      in (locals', b2))"

definition releaseLocal :: "'c BasicOpcodeBuilder \<Rightarrow> 'c BasicOpcodeBuilder" where
  "releaseLocal b = b\<lparr>locals := locals b - 1\<rparr>"

definition push ::
  "Op \<Rightarrow> cell \<Rightarrow> cell \<Rightarrow> cell \<Rightarrow> 'c BasicOpcodeBuilder \<Rightarrow> int \<times> 'c BasicOpcodeBuilder" where
  "push name op1 op2 op3 b =
     (let (offset, p) = program_push name op1 op2 op3 (program b) in (offset, b\<lparr>program := p\<rparr>))"

definition reserve :: "Op \<Rightarrow> 'c BasicOpcodeBuilder \<Rightarrow> 'c BasicOpcodeBuilder" where
  "reserve name b = snd (push name (Number 0) (Number 0) (Number 0) b)"

text \<open>The constructor: \<open>constants\<close> is \<^verbatim>\<open>env.constants\<close>; \<^verbatim>\<open>meta\<close> is only stored.\<close>

definition new_BasicOpcodeBuilder :: "'c \<Rightarrow> Program \<Rightarrow> 'c BasicOpcodeBuilder" where
  "new_BasicOpcodeBuilder cs p =
     reserve ReserveLocals
       \<lparr>labelsStack = [], constants = cs, start = program_next p, locals = 0, localsSize = 0,
        program = p\<rparr>"

definition finalize :: "'c BasicOpcodeBuilder \<Rightarrow> int \<times> 'c BasicOpcodeBuilder" where
  "finalize b =
     push ReleaseLocals (Number 0) (Number 0) (Number 0)
       (b\<lparr>program :=
            program_set (start b) ReserveLocals (Some (Number (localsSize b))) None None
              (program b)\<rparr>)"

subsection \<open>Label scopes\<close>

text \<open>
  Modelled from the spec: the class \<^verbatim>\<open>Stack\<close> and the function \<^verbatim>\<open>expect\<close> of the package
  \<^verbatim>\<open>@glimmer/util\<close>, which are not among the sources. The spec has the compiler manage "a
  stack of nested label scopes" and makes "unbalanced label-scope push/pop" a fatal
  compile-time fault. The stack is a list, its top first: \<^verbatim>\<open>current\<close> is the head, \<^verbatim>\<open>null\<close>
  when the stack is empty; \<^verbatim>\<open>push\<close> adds a head; \<^verbatim>\<open>pop()\<close> removes the head and returns it,
  \<^verbatim>\<open>null\<close> when the stack is empty. \<^verbatim>\<open>expect(val, message)\<close> throws an \<^verbatim>\<open>Error\<close> with the message
  when the value is \<^verbatim>\<open>null\<close>, and returns the value otherwise.

  The private getter \<^verbatim>\<open>labels\<close> is \<^verbatim>\<open>expect(this.labelsStack.current, ...)\<close>. The \<^verbatim>\<open>Labels\<close>
  object it returns is the one on the stack, so a method called on it changes the top of
  the stack: \<open>update_labels\<close>.
\<close>

definition labels_getter :: "'c BasicOpcodeBuilder \<Rightarrow> error + Labels" where
  "labels_getter b =
     (case labelsStack b of
        [] \<Rightarrow> Inl (Error ''bug: not in a label stack'')
      | l # _ \<Rightarrow> Inr l)"

definition update_labels ::
  "(Labels \<Rightarrow> Labels) \<Rightarrow> 'c BasicOpcodeBuilder \<Rightarrow> (unit, 'c) result" where
  "update_labels f b =
     (case labels_getter b of
        Inl e \<Rightarrow> (Inl e, b)
      | Inr l \<Rightarrow> (Inr (), b\<lparr>labelsStack := f l # tl (labelsStack b)\<rparr>))"

definition startLabels :: "'c BasicOpcodeBuilder \<Rightarrow> 'c BasicOpcodeBuilder" where
  "startLabels b = b\<lparr>labelsStack := new_Labels # labelsStack b\<rparr>"

definition stopLabels :: "'c BasicOpcodeBuilder \<Rightarrow> (unit, 'c) result" where
  "stopLabels b =
     (case labelsStack b of
        [] \<Rightarrow> (Inl (Error ''unbalanced push and pop labels''), b)
      | l # ls \<Rightarrow> (Inr (), b\<lparr>labelsStack := ls, program := Labels_patch l (program b)\<rparr>))"

definition label :: "string \<Rightarrow> 'c BasicOpcodeBuilder \<Rightarrow> (unit, 'c) result" where
  "label name b = update_labels (Labels_label name (nextPos b)) b"

definition enter :: "string \<Rightarrow> string \<Rightarrow> 'c BasicOpcodeBuilder \<Rightarrow> (unit, 'c) result" where
  "enter enter' exit' b =
     (let b1 = reserve Enter b in update_labels (Labels_range (pos b1) Enter enter' exit') b1)"

definition enterList :: "string \<Rightarrow> string \<Rightarrow> 'c BasicOpcodeBuilder \<Rightarrow> (unit, 'c) result" where
  "enterList start' end' b =
     (let b1 = reserve EnterList b in update_labels (Labels_range (pos b1) EnterList start' end') b1)"

definition iterate ::
  "string \<Rightarrow> string \<Rightarrow> string \<Rightarrow> 'c BasicOpcodeBuilder \<Rightarrow> (unit, 'c) result" where
  "iterate breaks start' end' b =
     (let b1 = reserve Iterate b in update_labels (Labels_iter (pos b1) breaks start' end') b1)"

definition jump :: "string \<Rightarrow> 'c BasicOpcodeBuilder \<Rightarrow> (unit, 'c) result" where
  "jump target b =
     (let b1 = reserve Jump b in update_labels (Labels_jump (pos b1) Jump target) b1)"

definition jumpIf :: "string \<Rightarrow> 'c BasicOpcodeBuilder \<Rightarrow> (unit, 'c) result" where
  "jumpIf target b =
     (let b1 = reserve JumpIf b in update_labels (Labels_jump (pos b1) JumpIf target) b1)"

definition jumpUnless :: "string \<Rightarrow> 'c BasicOpcodeBuilder \<Rightarrow> (unit, 'c) result" where
  "jumpUnless target b =
     (let b1 = reserve JumpUnless b in update_labels (Labels_jump (pos b1) JumpUnless target) b1)"

subsection \<open>Instructions with plain operands\<close>

definition exit :: "'c BasicOpcodeBuilder \<Rightarrow> 'c BasicOpcodeBuilder" where
  "exit b = snd (push Exit (Number 0) (Number 0) (Number 0) b)"

definition exitList :: "'c BasicOpcodeBuilder \<Rightarrow> 'c BasicOpcodeBuilder" where
  "exitList b = snd (push ExitList (Number 0) (Number 0) (Number 0) b)"

definition pop :: "'c BasicOpcodeBuilder \<Rightarrow> int \<times> 'c BasicOpcodeBuilder" where
  "pop b = push Pop (Number 0) (Number 0) (Number 0) b"

definition setComponentState :: "int \<Rightarrow> 'c BasicOpcodeBuilder \<Rightarrow> 'c BasicOpcodeBuilder" where
  "setComponentState local' b = snd (push SetComponentState (Number local') (Number 0) (Number 0) b)"

definition createComponent ::
  "int \<Rightarrow> bool \<Rightarrow> bool \<Rightarrow> 'c BasicOpcodeBuilder \<Rightarrow> 'c BasicOpcodeBuilder" where
  "createComponent state hasDefault hasInverse b =
     (let flag = of_bool hasDefault OR push_bit 1 (of_bool hasInverse)
      in snd (push CreateComponent (Number flag) (Number state) (Number 0) b))"

definition registerComponentDestructor :: "int \<Rightarrow> 'c BasicOpcodeBuilder \<Rightarrow> 'c BasicOpcodeBuilder" where
  "registerComponentDestructor state b =
     snd (push RegisterComponentDestructor (Number state) (Number 0) (Number 0) b)"

definition beginComponentTransaction :: "'c BasicOpcodeBuilder \<Rightarrow> 'c BasicOpcodeBuilder" where
  "beginComponentTransaction b =
     snd (push BeginComponentTransaction (Number 0) (Number 0) (Number 0) b)"

definition commitComponentTransaction :: "'c BasicOpcodeBuilder \<Rightarrow> 'c BasicOpcodeBuilder" where
  "commitComponentTransaction b =
     snd (push CommitComponentTransaction (Number 0) (Number 0) (Number 0) b)"

definition getComponentSelf :: "int \<Rightarrow> 'c BasicOpcodeBuilder \<Rightarrow> 'c BasicOpcodeBuilder" where
  "getComponentSelf state b = snd (push GetComponentSelf (Number state) (Number 0) (Number 0) b)"

definition getComponentLayout :: "int \<Rightarrow> 'c BasicOpcodeBuilder \<Rightarrow> 'c BasicOpcodeBuilder" where
  "getComponentLayout state b = snd (push GetComponentLayout (Number state) (Number 0) (Number 0) b)"

definition didCreateElement :: "int \<Rightarrow> 'c BasicOpcodeBuilder \<Rightarrow> 'c BasicOpcodeBuilder" where
  "didCreateElement state b = snd (push DidCreateElement (Number state) (Number 0) (Number 0) b)"

definition didRenderLayout :: "int \<Rightarrow> 'c BasicOpcodeBuilder \<Rightarrow> 'c BasicOpcodeBuilder" where
  "didRenderLayout state b = snd (push DidRenderLayout (Number state) (Number 0) (Number 0) b)"

definition popScope :: "'c BasicOpcodeBuilder \<Rightarrow> 'c BasicOpcodeBuilder" where
  "popScope b = snd (push PopScope (Number 0) (Number 0) (Number 0) b)"

definition pushDynamicScope :: "'c BasicOpcodeBuilder \<Rightarrow> 'c BasicOpcodeBuilder" where
  "pushDynamicScope b = snd (push PushDynamicScope (Number 0) (Number 0) (Number 0) b)"

definition popDynamicScope :: "'c BasicOpcodeBuilder \<Rightarrow> 'c BasicOpcodeBuilder" where
  "popDynamicScope b = snd (push PopDynamicScope (Number 0) (Number 0) (Number 0) b)"

subsection \<open>Instructions with operands from the constant pool\<close>

text \<open>
  The class \<^verbatim>\<open>Constants\<close> (opcodes.ts) is not among the sources. Its operations are
  parameters: each takes the value to store and the pool, and returns the handle (a
  number) with the pool as the call leaves it. \<open>'blk\<close> is the type \<^verbatim>\<open>Block\<close> and \<open>'o\<close> the
  type of the opaque values handed to \<^verbatim>\<open>other\<close>.
\<close>

record ('c, 'blk, 'o) Constants =
  constants_string :: "string \<Rightarrow> 'c \<Rightarrow> int \<times> 'c"
  constants_block :: "'blk \<Rightarrow> 'c \<Rightarrow> int \<times> 'c"
  constants_other :: "'o \<Rightarrow> 'c \<Rightarrow> int \<times> 'c"

definition string' ::
  "('c, 'blk, 'o) Constants \<Rightarrow> string \<Rightarrow> 'c BasicOpcodeBuilder \<Rightarrow> int \<times> 'c BasicOpcodeBuilder" where
  "string' K s b = (let (h, cs) = constants_string K s (constants b) in (h, b\<lparr>constants := cs\<rparr>))"

definition other ::
  "('c, 'blk, 'o) Constants \<Rightarrow> 'o \<Rightarrow> 'c BasicOpcodeBuilder \<Rightarrow> int \<times> 'c BasicOpcodeBuilder" where
  "other K v b = (let (h, cs) = constants_other K v (constants b) in (h, b\<lparr>constants := cs\<rparr>))"

definition block ::
  "('c, 'blk, 'o) Constants \<Rightarrow> 'blk option \<Rightarrow> 'c BasicOpcodeBuilder
     \<Rightarrow> int \<times> 'c BasicOpcodeBuilder" where
  "block K blk b =
     (case blk of
        Some bl \<Rightarrow> (let (h, cs) = constants_block K bl (constants b) in (h, b\<lparr>constants := cs\<rparr>))
      | None \<Rightarrow> (0, b))"

definition pushBlock ::
  "('c, 'blk, 'o) Constants \<Rightarrow> 'blk option \<Rightarrow> 'c BasicOpcodeBuilder \<Rightarrow> 'c BasicOpcodeBuilder" where
  "pushBlock K blk b =
     (let (h, b1) = block K blk b in snd (push PushBlock (Number h) (Number 0) (Number 0) b1))"

definition pushComponentArgs ::
  "('c, 'blk, 'o) Constants \<Rightarrow> int \<Rightarrow> int \<Rightarrow> 'o \<Rightarrow> 'c BasicOpcodeBuilder
     \<Rightarrow> 'c BasicOpcodeBuilder" where
  "pushComponentArgs K positional named namedDict b =
     (let (h, cs) = constants_other K namedDict (constants b)
      in snd (push PushComponentArgs (Number positional) (Number named) (Number h)
                (b\<lparr>constants := cs\<rparr>)))"

definition invokeDynamic ::
  "('c, 'blk, 'o) Constants \<Rightarrow> 'o \<Rightarrow> 'c BasicOpcodeBuilder \<Rightarrow> 'c BasicOpcodeBuilder" where
  "invokeDynamic K invoker b =
     (let (h, b1) = other K invoker b in snd (push InvokeDynamic (Number h) (Number 0) (Number 0) b1))"

subsection \<open>Primitive literals\<close>

text \<open>
  The values \<^verbatim>\<open>primitive\<close> can be called with, by what \<^verbatim>\<open>typeof\<close> says of them. A number is
  an integer here (the operators \<^verbatim>\<open><<\<close> and \<^verbatim>\<open>|\<close> convert their operands to 32-bit integers
  in any case; fractions are outside this embedding). \<open>JSObject\<close> is any object other than
  \<^verbatim>\<open>null\<close>.
\<close>

datatype js_value =
    JSNumber int | JSString string | JSBoolean bool | JSNull | JSUndefined
  | JSObject | JSFunction | JSSymbol

fun typeof :: "js_value \<Rightarrow> string" where
  "typeof (JSNumber _) = ''number''"
| "typeof (JSString _) = ''string''"
| "typeof (JSBoolean _) = ''boolean''"
| "typeof JSNull = ''object''"
| "typeof JSUndefined = ''undefined''"
| "typeof JSObject = ''object''"
| "typeof JSFunction = ''function''"
| "typeof JSSymbol = ''symbol''"

text \<open>
  \<^verbatim>\<open>(flag << 30) | primitive\<close>: both operators work on 32-bit two's complement integers and
  give one, so the operands are cut to 32 bits and the result is read as signed.
\<close>

definition encode_primitive :: "int \<Rightarrow> int \<Rightarrow> 32 word" where
  "encode_primitive flag primitive' = push_bit 30 (word_of_int flag) OR word_of_int primitive'"

text \<open>
  The statement after the \<^verbatim>\<open>switch\<close> of \<^verbatim>\<open>primitive\<close>:
  \<^verbatim>\<open>this.push(Op.Primitive, (flag << 30) | primitive)\<close>.
\<close>

definition push_primitive ::
  "int \<Rightarrow> int \<Rightarrow> 'c BasicOpcodeBuilder \<Rightarrow> (unit, 'c) result" where
  "push_primitive flag primitive' b =
     (Inr (), snd (push Primitive (Number (sint (encode_primitive flag primitive')))
                     (Number 0) (Number 0) b))"

text \<open>
  The \<^verbatim>\<open>switch (typeof _primitive)\<close>. The casts \<^verbatim>\<open>_primitive as number\<close> and
  \<^verbatim>\<open>_primitive as string\<close> read the value the case has just tested for, and
  \<^verbatim>\<open>(_primitive as any) | 0\<close> is 1 for \<^verbatim>\<open>true\<close> and 0 for \<^verbatim>\<open>false\<close>.
\<close>

definition primitive ::
  "('c, 'blk, 'o) Constants \<Rightarrow> js_value \<Rightarrow> 'c BasicOpcodeBuilder \<Rightarrow> (unit, 'c) result" where
  "primitive K v b =
     (if typeof v = ''number'' then
        push_primitive 0 (case v of JSNumber n \<Rightarrow> n | _ \<Rightarrow> 0) b
      else if typeof v = ''string'' then
        (let (h, b1) = string' K (case v of JSString s \<Rightarrow> s | _ \<Rightarrow> []) b
         in push_primitive 1 h b1)
      else if typeof v = ''boolean'' then
        push_primitive 2 (case v of JSBoolean t \<Rightarrow> of_bool t | _ \<Rightarrow> 0) b
      else if typeof v = ''object'' then
        push_primitive 2 2 b
      else if typeof v = ''undefined'' then
        push_primitive 2 3 b
      else (Inl (Error ''Invalid primitive passed to pushPrimitive''), b))"

subsection \<open>Component invocation (class OpcodeBuilder)\<close>

text \<open>
  The opaque values \<^verbatim>\<open>invokeComponent\<close> hands to the constant pool: the dictionary of
  argument slots, and the invoker \<^verbatim>\<open>new InvokeDynamicLayout(attrs && attrs.scan(), names)\<close>.
  The method does not use its parameter \<^verbatim>\<open>_params\<close>, which is left out.
  \<^verbatim>\<open>compileComponentArgs\<close> (syntax/functions.ts) and \<^verbatim>\<open>scan\<close> (of \<^verbatim>\<open>RawInlineBlock\<close>) are not
  among the sources and are parameters: \<open>cca hash b\<close> may emit instructions through the
  builder and may throw; it returns the fields \<^verbatim>\<open>slots\<close>, \<^verbatim>\<open>count\<close> and \<^verbatim>\<open>names\<close>.
\<close>

datatype ('d, 'blk) opaque = Dict 'd | InvokeDynamicLayout "'blk option" 'd

definition invokeComponent ::
  "('c, 'blk, ('d, 'blk) opaque) Constants \<Rightarrow> ('raw \<Rightarrow> 'blk)
     \<Rightarrow> ('h option \<Rightarrow> 'c BasicOpcodeBuilder \<Rightarrow> ('d \<times> int \<times> 'd, 'c) result)
     \<Rightarrow> 'raw option \<Rightarrow> 'h option \<Rightarrow> 'blk option \<Rightarrow> 'blk option
     \<Rightarrow> 'c BasicOpcodeBuilder \<Rightarrow> (unit, 'c) result" where
  "invokeComponent K scan cca attrs hash blk inverse' b =
     (let (state, b1) = local b;
          b2 = setComponentState state b1;
          b3 = pushBlock K blk b2;
          b4 = pushBlock K inverse' b3
      in case cca hash b4 of
           (Inl e, b5) \<Rightarrow> (Inl e, b5)
         | (Inr (slots, count, names), b5) \<Rightarrow>
             (let b6 = pushDynamicScope b5;
                  b7 = pushComponentArgs K 0 count (Dict slots) b6;
                  b8 = createComponent state True False b7;
                  b9 = registerComponentDestructor state b8;
                  b10 = beginComponentTransaction b9;
                  b11 = getComponentSelf state b10;
                  b12 = getComponentLayout state b11;
                  b13 = invokeDynamic K (InvokeDynamicLayout (map_option scan attrs) names) b12;
                  b14 = didCreateElement state b13;
                  b15 = didRenderLayout state b14;
                  b16 = popScope b15;
                  b17 = popDynamicScope b16;
                  b18 = commitComponentTransaction b17
              in (Inr (), releaseLocal b18)))"

subsection \<open>Sequences of builder calls\<close>

text \<open>
  A compilation is a sequence of calls of the builder's methods on one builder, made by
  the callers of this file and by the callbacks of \<^verbatim>\<open>labelled\<close>, \<^verbatim>\<open>iter\<close> and \<^verbatim>\<open>unit\<close>. Each
  such call comes down to calls of the methods below: every other method of the class
  is \<open>push\<close> with operands it computed, some of them handles of the constant pool, which
  has no part in what is proved of these sequences. A call that throws ends the sequence.
\<close>

datatype call =
    CallPush Op cell cell cell
  | CallLocal
  | CallReleaseLocal
  | CallStartLabels
  | CallStopLabels
  | CallLabel string
  | CallJump string
  | CallJumpIf string
  | CallJumpUnless string
  | CallEnter string string
  | CallEnterList string string
  | CallIterate string string string

fun perform :: "call \<Rightarrow> 'c BasicOpcodeBuilder \<Rightarrow> (unit, 'c) result" where
  "perform (CallPush name op1 op2 op3) b = (Inr (), snd (push name op1 op2 op3 b))"
| "perform CallLocal b = (Inr (), snd (local b))"
| "perform CallReleaseLocal b = (Inr (), releaseLocal b)"
| "perform CallStartLabels b = (Inr (), startLabels b)"
| "perform CallStopLabels b = stopLabels b"
| "perform (CallLabel name) b = label name b"
| "perform (CallJump target) b = jump target b"
| "perform (CallJumpIf target) b = jumpIf target b"
| "perform (CallJumpUnless target) b = jumpUnless target b"
| "perform (CallEnter enter' exit') b = enter enter' exit' b"
| "perform (CallEnterList start' end') b = enterList start' end' b"
| "perform (CallIterate breaks start' end') b = iterate breaks start' end' b"

fun run :: "call list \<Rightarrow> 'c BasicOpcodeBuilder \<Rightarrow> (unit, 'c) result" where
  "run [] b = (Inr (), b)"
| "run (c # cs) b =
     (case perform c b of
        (Inl e, b') \<Rightarrow> (Inl e, b')
      | (Inr _, b') \<Rightarrow> run cs b')"

subsection \<open>Reading a program\<close>

text \<open>
  The four slots of the instruction at an offset: what the virtual machine fetches there.
  An operand of \<open>Primitive\<close> is read as a 32-bit two's complement integer, the type tag
  in its two top bits and the payload in the thirty bits below.
\<close>

definition instruction_at :: "Program \<Rightarrow> int \<Rightarrow> cell list" where
  "instruction_at p off = take 4 (drop (nat off) p)"

definition primitive_flag :: "int \<Rightarrow> int" where
  "primitive_flag op1 = drop_bit 30 (take_bit 32 op1)"

definition primitive_payload :: "int \<Rightarrow> int" where
  "primitive_payload op1 = take_bit 30 op1"

subsection \<open>Well-formed builders\<close>

text \<open>
  The sites recorded in a label scope are the offsets of instructions that were reserved
  for them: inside the program, after the head slot, and no two of them overlapping.
  Every builder reached from the constructor by calls of its methods is well-formed.
\<close>

definition site_offsets :: "Labels \<Rightarrow> int set" where
  "site_offsets l = jump_at ` set (jumps l) \<union> range_at ` set (ranges l) \<union> iter_at ` set (iters l)"

definition separate_sites :: "Labels \<Rightarrow> bool" where
  "separate_sites l \<longleftrightarrow>
     (\<forall>x\<in>set (jumps l). \<forall>y\<in>set (jumps l). x = y \<or> 4 \<le> \<bar>jump_at x - jump_at y\<bar>) \<and>
     (\<forall>x\<in>set (ranges l). \<forall>y\<in>set (ranges l). x = y \<or> 4 \<le> \<bar>range_at x - range_at y\<bar>) \<and>
     (\<forall>x\<in>set (iters l). \<forall>y\<in>set (iters l). x = y \<or> 4 \<le> \<bar>iter_at x - iter_at y\<bar>) \<and>
     (\<forall>x\<in>set (jumps l). \<forall>y\<in>set (ranges l). 4 \<le> \<bar>jump_at x - range_at y\<bar>) \<and>
     (\<forall>x\<in>set (jumps l). \<forall>y\<in>set (iters l). 4 \<le> \<bar>jump_at x - iter_at y\<bar>) \<and>
     (\<forall>x\<in>set (ranges l). \<forall>y\<in>set (iters l). 4 \<le> \<bar>range_at x - iter_at y\<bar>)"

definition scope_ok :: "int \<Rightarrow> int \<Rightarrow> Labels \<Rightarrow> bool" where
  "scope_ok lo hi l \<longleftrightarrow> separate_sites l \<and> (\<forall>a\<in>site_offsets l. lo \<le> a \<and> a + 4 \<le> hi)"

definition well_formed :: "'c BasicOpcodeBuilder \<Rightarrow> bool" where
  "well_formed b \<longleftrightarrow>
     0 \<le> start b \<and> start b + 4 \<le> int (length (program b)) \<and>
     (\<forall>l\<in>set (labelsStack b). scope_ok (start b + 4) (int (length (program b))) l)"

section \<open>The tree builders: Create and Rehydrate\<close>

text \<open>
  Modelled from the spec: the two tree-builder strategies (the element builders that create
  and that rehydrate), the markers they exchange, and the template front end and virtual
  machine that drive them. None of this code is among the sources, which hold only the
  tests of rehydration (the suites \<^verbatim>\<open>Rehydration\<close> and \<^verbatim>\<open>RehydratingComponents\<close>). The
  definitions follow sections 3, 4.3 and 4.4 of the spec, and the tests where the spec
  leaves a choice open; each such choice is named where it is made. The trees are the ones
  the builders build: the tests serialise the output of the first pass and parse it again
  before they rehydrate it, a round trip the spec does not describe and that is not
  modelled (so no element is implied by the parser, such as the \<^verbatim>\<open>tbody\<close> of a table).
\<close>

subsection \<open>Document trees\<close>

text \<open>
  Modelled from the spec: the document tree (the concrete document API is out of the
  spec's scope). A node is an element (tag, attributes, children), a text node or a
  comment. The two markers that bound a dynamic region are comment nodes with a reserved
  text "that cannot collide with user content": they are nodes of their own here.
  Namespaces are left out.
\<close>

datatype node =
    Element string "string \<rightharpoonup> string" "node list"
  | TextNode string
  | CommentNode string
  | StartMarker
  | EndMarker

subsection \<open>What a render asks of the tree builder\<close>

text \<open>
  Modelled from the spec: the calls the virtual machine makes to the tree builder in one
  render, "the VM's sole channel for touching the output tree": append text, append
  comment, an element (open element, set its attributes, the calls for its content, close
  element), and a dynamic region whose node count can vary (the calls for its content,
  between the opening and the closing of the region).
\<close>

datatype builder_call =
    TextCall string
  | CommentCall string
  | ElementCall string "(string \<times> string) list" "builder_call list"
  | RegionCall "builder_call list"

text \<open>
  Modelled from the spec: "set attribute" on an element, and the attributes of an element
  on which the listed attributes were set in order.
\<close>

definition setAttribute :: "string \<times> string \<Rightarrow> (string \<rightharpoonup> string) \<Rightarrow> (string \<rightharpoonup> string)" where
  "setAttribute a attrs = attrs(fst a \<mapsto> snd a)"

definition attributes :: "(string \<times> string) list \<Rightarrow> (string \<rightharpoonup> string)" where
  "attributes as = fold setAttribute as Map.empty"

subsection \<open>The Create strategy\<close>

text \<open>
  Modelled from the spec: "every call allocates a new node and appends it at the current
  insertion point; it never consults or mutates prior output." In a first pass whose
  output will be rehydrated (\<open>markers\<close>), "every dynamic region whose node count can vary
  is wrapped in a pair of comment markers"; the markers are "emitted only by a prior
  Create-mode pass", so the Create semantics that rehydration falls back to emits none.
\<close>

fun create_call :: "bool \<Rightarrow> builder_call \<Rightarrow> node list" where
  "create_call markers (TextCall t) = [TextNode t]"
| "create_call markers (CommentCall c) = [CommentNode c]"
| "create_call markers (ElementCall tag as body) =
     [Element tag (attributes as) (concat (map (create_call markers) body))]"
| "create_call markers (RegionCall body) =
     (if markers then [StartMarker] @ concat (map (create_call markers) body) @ [EndMarker]
      else concat (map (create_call markers) body))"

definition create :: "bool \<Rightarrow> builder_call list \<Rightarrow> node list" where
  "create markers calls = concat (map (create_call markers) calls)"

subsection \<open>The Rehydrate strategy\<close>

text \<open>
  Modelled from the spec: the scan for the end marker of the enclosing region, from the
  cursor on. Markers are "correctly nested (no overlap)", so the end marker of the
  region is the first end marker that closes no start marker met on the way (\<open>depth\<close>
  counts the regions entered). The scan returns the nodes before that end marker (the
  stale remainder) and the nodes from it on; in the children of an element that hold no
  such end marker, everything is stale.
\<close>

fun scan_to_end_marker :: "nat \<Rightarrow> node list \<Rightarrow> node list \<times> node list" where
  "scan_to_end_marker depth [] = ([], [])"
| "scan_to_end_marker depth (EndMarker # ns) =
     (case depth of
        0 \<Rightarrow> ([], EndMarker # ns)
      | Suc d \<Rightarrow> (case scan_to_end_marker d ns of (stale, rest) \<Rightarrow> (EndMarker # stale, rest)))"
| "scan_to_end_marker depth (StartMarker # ns) =
     (case scan_to_end_marker (Suc depth) ns of (stale, rest) \<Rightarrow> (StartMarker # stale, rest))"
| "scan_to_end_marker depth (n # ns) =
     (case scan_to_end_marker depth ns of (stale, rest) \<Rightarrow> (n # stale, rest))"

text \<open>
  Modelled from the spec: the "nodes-removed counter". The spec counts removed nodes; the
  tests of the repository (\<^verbatim>\<open>assertRehydrationStats\<close>) expect 1 where a text node is removed
  with the two markers around it and where an element and, later, an empty comment are
  removed: comment nodes, markers among them, do not count, and a removed subtree counts
  once.
\<close>

fun counted :: "node \<Rightarrow> bool" where
  "counted (Element _ _ _) = True"
| "counted (TextNode _) = True"
| "counted _ = False"

definition removed_count :: "node list \<Rightarrow> nat" where
  "removed_count ns = length (filter counted ns)"

text \<open>
  Modelled from the spec: the cursor, "current tree position (a node plus its bounding
  start/end within the active block)": whether rehydration is still on in the current
  region, and the siblings from the cursor on (once rehydration is off: from the end
  marker of the region on). On a mismatch the builder "removes the unmatched node,
  increments a nodes-removed counter, and falls through to Create semantics for that
  instruction and everything textually nested under it until the enclosing region's end
  marker is reached"; the nodes up to that marker are the stale remainder, "removed in a
  single sweep, counted as removed nodes".
\<close>

type_synonym cursor = "bool \<times> node list"

definition mismatch :: "builder_call \<Rightarrow> node list \<Rightarrow> node list \<times> cursor \<times> nat" where
  "mismatch c candidates =
     (case scan_to_end_marker 0 candidates of
        (stale, rest) \<Rightarrow> (create_call False c, (False, rest), removed_count stale))"

text \<open>
  Modelled from the spec: an adopted element is repaired, "repairing only the specific
  attribute/text value that changed": each attribute the instruction stream sets is set on
  it, so its value changes where it differs. The spec names no other repair: an attribute
  of the adopted element that the instruction stream does not set is left as it is.
\<close>

definition repair_attributes ::
  "(string \<times> string) list \<Rightarrow> (string \<rightharpoonup> string) \<Rightarrow> (string \<rightharpoonup> string)" where
  "repair_attributes as existing = fold setAttribute as existing"

text \<open>
  Modelled from the spec: the Rehydrate strategy. "Each call first asks: does the node at
  the cursor match what the instruction calls for (same tag name, same node kind)? On
  match, it adopts the existing node (repairing only the specific attribute/text value
  that changed) and advances the cursor past it." An adopted element is rehydrated
  against its own children, and what is left of them when it is closed is removed. For
  a region "the cursor is positioned just after the start marker; on leaving, [...] if
  additional unconsumed nodes remain between the cursor and the end marker, they are a
  stale remainder and are removed in a single sweep, counted as removed nodes, before
  advancing past the end marker", where rehydration is on again. The markers themselves
  are consumed: the tests find none in the rehydrated tree. Each function returns the
  nodes the calls leave in the tree, the cursor after them and the count of removed
  nodes.
\<close>

fun rehydrate_call :: "builder_call \<Rightarrow> cursor \<Rightarrow> node list \<times> cursor \<times> nat"
  and rehydrate :: "builder_call list \<Rightarrow> cursor \<Rightarrow> node list \<times> cursor \<times> nat" where
  "rehydrate [] cur = ([], cur, 0)"
| "rehydrate (c # cs) cur =
     (case rehydrate_call c cur of
        (out1, cur1, n1) \<Rightarrow>
          (case rehydrate cs cur1 of
             (out2, cur2, n2) \<Rightarrow> (out1 @ out2, cur2, n1 + n2)))"
| "rehydrate_call c (False, candidates) = (create_call False c, (False, candidates), 0)"
| "rehydrate_call (TextCall t) (True, candidates) =
     (case candidates of
        TextNode s # rest \<Rightarrow> ([TextNode t], (True, rest), 0)
      | _ \<Rightarrow> mismatch (TextCall t) candidates)"
| "rehydrate_call (CommentCall t) (True, candidates) =
     (case candidates of
        CommentNode s # rest \<Rightarrow> ([CommentNode t], (True, rest), 0)
      | _ \<Rightarrow> mismatch (CommentCall t) candidates)"
| "rehydrate_call (ElementCall tag as body) (True, candidates) =
     (case candidates of
        Element tag' as' children # rest \<Rightarrow>
          (if tag' = tag then
             (case rehydrate body (True, children) of
                (out, (_, left), n) \<Rightarrow>
                  ([Element tag (repair_attributes as as') out], (True, rest),
                   n + removed_count left))
           else mismatch (ElementCall tag as body) candidates)
      | _ \<Rightarrow> mismatch (ElementCall tag as body) candidates)"
| "rehydrate_call (RegionCall body) (True, candidates) =
     (case candidates of
        StartMarker # rest \<Rightarrow>
          (case rehydrate body (True, rest) of
             (out, (_, candidates1), n) \<Rightarrow>
               (case scan_to_end_marker 0 candidates1 of
                  (stale, after) \<Rightarrow> (out, (True, tl after), n + removed_count stale)))
      | _ \<Rightarrow> mismatch (RegionCall body) candidates)"

subsection \<open>Templates and contexts\<close>

text \<open>
  Modelled from the spec: the template front end and the render of a template against a
  context, as far as the scenarios of section 8 and the tests use them: static text and
  comments, dynamic content \<^verbatim>\<open>{{name}}\<close>, elements with static and dynamic attributes,
  \<^verbatim>\<open>{{#if name}} ... {{else}} ... {{/if}}\<close> and \<^verbatim>\<open>{{#each name}} ... {{/each}}\<close>. A context
  binds names to text, to truth values and to lists of items, each item the bindings its
  body sees. Dynamic content and the blocks are the regions whose node count can vary:
  each is a region, and a list is "one marker pair per iteration region plus one marker
  pair per rendered item"; in the server output the tests assert, the block
  \<^verbatim>\<open>{{#each}}\<close> is a region that holds the region of the list, which holds one region for
  each item. A block that renders nothing renders an empty comment (the \<^verbatim>\<open><!---->\<close> of the
  tests). Remote regions, trusted HTML and component invocation are left out.
\<close>

datatype binding = TextValue string | Truth bool | Items "(string \<times> binding) list list"

type_synonym bindings = "(string \<times> binding) list"

datatype attribute_value = StaticValue string | DynamicValue string

datatype statement =
    StaticText string
  | StaticComment string
  | Content string
  | ElementStatement string "(string \<times> attribute_value) list" "statement list"
  | IfBlock string "statement list" "statement list"
  | EachBlock string "statement list"

fun text_of :: "binding option \<Rightarrow> string" where
  "text_of (Some (TextValue s)) = s"
| "text_of (Some (Truth b)) = (if b then ''true'' else ''false'')"
| "text_of _ = []"

fun truthy :: "binding option \<Rightarrow> bool" where
  "truthy (Some (TextValue s)) = (s \<noteq> [])"
| "truthy (Some (Truth b)) = b"
| "truthy (Some (Items xs)) = (xs \<noteq> [])"
| "truthy None = False"

fun items_of :: "binding option \<Rightarrow> bindings list" where
  "items_of (Some (Items xs)) = xs"
| "items_of _ = []"

fun attribute_text :: "bindings \<Rightarrow> attribute_value \<Rightarrow> string" where
  "attribute_text c (StaticValue v) = v"
| "attribute_text c (DynamicValue name) = text_of (map_of c name)"

definition placeholder_if_empty :: "builder_call list \<Rightarrow> builder_call list" where
  "placeholder_if_empty calls = (if calls = [] then [CommentCall []] else calls)"

function execute_statement :: "bindings \<Rightarrow> statement \<Rightarrow> builder_call list" where
  "execute_statement c (StaticText t) = [TextCall t]"
| "execute_statement c (StaticComment t) = [CommentCall t]"
| "execute_statement c (Content name) = [RegionCall [TextCall (text_of (map_of c name))]]"
| "execute_statement c (ElementStatement tag as body) =
     [ElementCall tag (map (\<lambda>(n, v). (n, attribute_text c v)) as)
        (concat (map (execute_statement c) body))]"
| "execute_statement c (IfBlock name then' else') =
     [RegionCall (placeholder_if_empty
        (if truthy (map_of c name) then concat (map (execute_statement c) then')
         else concat (map (execute_statement c) else')))]"
| "execute_statement c (EachBlock name body) =
     [RegionCall [RegionCall (placeholder_if_empty
        (map (\<lambda>item. RegionCall (concat (map (execute_statement (item @ c)) body)))
           (items_of (map_of c name))))]]"
  by pat_completeness auto
termination
  by (relation "measure (\<lambda>(c, s). size s)")
     (auto simp: less_Suc_eq_le intro: size_list_estimation' trans_le_add1 trans_le_add2)

definition execute :: "bindings \<Rightarrow> statement list \<Rightarrow> builder_call list" where
  "execute c t = concat (map (execute_statement c) t)"

text \<open>
  Modelled from the spec: the two render passes. \<open>Create\<close> is the first pass, its whole
  output one region (the tests find the output between an opening and a closing marker).
  \<open>Rehydrate\<close> renders against an existing list of nodes and returns the final nodes
  with the count of removed nodes; nodes it never reached stay where they are.
\<close>

definition Create :: "statement list \<Rightarrow> bindings \<Rightarrow> node list" where
  "Create t c = create True [RegionCall (execute c t)]"

definition Rehydrate :: "statement list \<Rightarrow> bindings \<Rightarrow> node list \<Rightarrow> node list \<times> nat" where
  "Rehydrate t c existing =
     (case rehydrate [RegionCall (execute c t)] (True, existing) of
        (out, (_, left), removed) \<Rightarrow> (out @ left, removed))"

section \<open>Properties of the program buffer and of patching\<close>

lemma local_simps:
  "fst (local b) = locals b"
  "locals (snd (local b)) = locals b + 1"
  "localsSize (snd (local b)) = max (localsSize b) (locals b + 1)"
  "program (snd (local b)) = program b"
  "labelsStack (snd (local b)) = labelsStack b"
  "start (snd (local b)) = start b"
  by (simp_all add: local_def Let_def)

lemma releaseLocal_simps:
  "locals (releaseLocal b) = locals b - 1"
  "localsSize (releaseLocal b) = localsSize b"
  "program (releaseLocal b) = program b"
  "labelsStack (releaseLocal b) = labelsStack b"
  "start (releaseLocal b) = start b"
  by (simp_all add: releaseLocal_def)

lemma store_in_range:
  "0 \<le> i \<Longrightarrow> i < int (length p) \<Longrightarrow> store i v p = p[nat i := v]"
  by (simp add: store_def nat_less_iff)

lemma program_set_in_range:
  assumes "0 \<le> off" "off + 4 \<le> int (length p)"
  shows "program_set off t a1 a2 a3 p =
    take (nat off) p @ [Opcode t, operand a1, operand a2, operand a3] @ drop (nat off + 4) p"
proof -
  obtain n where n: "off = int n" using assms(1) by (metis nat_0_le)
  have len: "n + 4 \<le> length p" using assms(2) n by simp
  have s: "\<And>k v q. k < 4 \<Longrightarrow> length q = length p \<Longrightarrow> store (int n + int k) v q = q[n + k := v]"
    using len by (simp add: store_def nat_add_distrib)
  have "program_set off t a1 a2 a3 p = p[n := Opcode t, n + 1 := operand a1, n + 2 := operand a2, n + 3 := operand a3]"
    using s[of 0] s[of 1] s[of 2] s[of 3] by (simp add: program_set_def n)
  also have "\<dots> = take n p @ [Opcode t, operand a1, operand a2, operand a3] @ drop (n + 4) p"
    using len by (intro nth_equalityI) (auto simp: nth_append nth_list_update nth_Cons' min_def)
  finally show ?thesis by (simp add: n)
qed

lemma length_program_set_in_range:
  "0 \<le> off \<Longrightarrow> off + 4 \<le> int (length p) \<Longrightarrow> length (program_set off t a1 a2 a3 p) = length p"
  by (simp add: program_set_in_range)

lemma instruction_at_program_set_same:
  "0 \<le> off \<Longrightarrow> off + 4 \<le> int (length p) \<Longrightarrow>
   instruction_at (program_set off t a1 a2 a3 p) off = [Opcode t, operand a1, operand a2, operand a3]"
  by (simp add: program_set_in_range instruction_at_def)

lemma instruction_at_program_set_other:
  assumes "0 \<le> off" "off + 4 \<le> int (length p)" "0 \<le> q" "q + 4 \<le> int (length p)" "4 \<le> \<bar>off - q\<bar>"
  shows "instruction_at (program_set off t a1 a2 a3 p) q = instruction_at p q"
proof -
  obtain n where n: "off = int n" using assms(1) by (metis nat_0_le)
  obtain m where m: "q = int m" using assms(3) by (metis nat_0_le)
  have len: "n + 4 \<le> length p" "m + 4 \<le> length p" using assms n m by simp_all
  have sep: "m + 4 \<le> n \<or> n + 4 \<le> m" using assms(5) n m by auto
  have eq: "program_set (int n) t a1 a2 a3 p =
      take n p @ [Opcode t, operand a1, operand a2, operand a3] @ drop (n + 4) p"
    using program_set_in_range[of "int n" p t a1 a2 a3] len by simp
  have "take 4 (drop m (take n p @ [Opcode t, operand a1, operand a2, operand a3] @ drop (n + 4) p))
      = take 4 (drop m p)"
  proof (cases "m + 4 \<le> n")
    case True
    then show ?thesis using len by (simp add: drop_take min_def)
  next
    case False
    then obtain k where k: "m = n + 4 + k" using sep by (metis le_Suc_ex)
    have "drop (n + 4 + k) (take n p @ [Opcode t, operand a1, operand a2, operand a3] @ drop (n + 4) p)
        = drop k (drop (n + 4) p)"
      using len by (simp add: drop_Cons' )
    then show ?thesis by (simp add: k add.commute)
  qed
  then show ?thesis
    by (simp add: instruction_at_def n m eq)
qed


lemma length_foldl_program_set:
  "\<forall>x\<in>set xs. 0 \<le> at x \<and> at x + 4 \<le> int (length p) \<Longrightarrow>
   length (foldl (\<lambda>p x. program_set (at x) (opc x) (a1 x) (a2 x) (a3 x) p) p xs) = length p"
  by (induction xs arbitrary: p) (simp_all add: length_program_set_in_range)

lemma foldl_program_set_keeps:
  assumes "\<forall>x\<in>set xs. 0 \<le> at x \<and> at x + 4 \<le> int (length p)"
    and "\<forall>x\<in>set xs. (at x = q \<and> [Opcode (opc x), operand (a1 x), operand (a2 x), operand (a3 x)] = v)
            \<or> 4 \<le> \<bar>at x - q\<bar>"
    and "0 \<le> q" "q + 4 \<le> int (length p)"
    and "instruction_at p q = v"
  shows "instruction_at (foldl (\<lambda>p x. program_set (at x) (opc x) (a1 x) (a2 x) (a3 x) p) p xs) q = v"
  using assms
proof (induction xs arbitrary: p)
  case Nil
  then show ?case by simp
next
  case (Cons x xs)
  let ?p = "program_set (at x) (opc x) (a1 x) (a2 x) (a3 x) p"
  have r: "0 \<le> at x" "at x + 4 \<le> int (length p)" using Cons.prems(1) by simp_all
  have len: "length ?p = length p" using r by (simp add: length_program_set_in_range)
  have "instruction_at ?p q = v"
  proof (cases "4 \<le> \<bar>at x - q\<bar>")
    case True
    then show ?thesis
      using instruction_at_program_set_other[OF r Cons.prems(3,4)] Cons.prems(5) by simp
  next
    case False
    then have "at x = q" "[Opcode (opc x), operand (a1 x), operand (a2 x), operand (a3 x)] = v"
      using Cons.prems(2) by auto
    then show ?thesis using instruction_at_program_set_same[OF r] by simp
  qed
  then show ?case
    using Cons.IH[of ?p] Cons.prems len by simp
qed

lemma foldl_program_set_writes:
  assumes "\<forall>x\<in>set xs. 0 \<le> at x \<and> at x + 4 \<le> int (length p)"
    and "\<forall>x\<in>set xs. \<forall>y\<in>set xs. x = y \<or> 4 \<le> \<bar>at x - at y\<bar>"
    and "x \<in> set xs"
  shows "instruction_at (foldl (\<lambda>p x. program_set (at x) (opc x) (a1 x) (a2 x) (a3 x) p) p xs) (at x)
     = [Opcode (opc x), operand (a1 x), operand (a2 x), operand (a3 x)]"
  using assms
proof (induction xs arbitrary: p)
  case Nil
  then show ?case by simp
next
  case (Cons y ys)
  let ?p = "program_set (at y) (opc y) (a1 y) (a2 y) (a3 y) p"
  have r: "0 \<le> at y" "at y + 4 \<le> int (length p)" using Cons.prems(1) by simp_all
  have len: "length ?p = length p" using r by (simp add: length_program_set_in_range)
  show ?case
  proof (cases "x = y")
    case True
    have "instruction_at (foldl (\<lambda>p x. program_set (at x) (opc x) (a1 x) (a2 x) (a3 x) p) ?p ys) (at y)
      = [Opcode (opc y), operand (a1 y), operand (a2 y), operand (a3 y)]"
    proof (rule foldl_program_set_keeps)
      show "\<forall>x\<in>set ys. 0 \<le> at x \<and> at x + 4 \<le> int (length ?p)"
        using Cons.prems(1) len by simp
      show "\<forall>x\<in>set ys. (at x = at y \<and> [Opcode (opc x), operand (a1 x), operand (a2 x), operand (a3 x)]
               = [Opcode (opc y), operand (a1 y), operand (a2 y), operand (a3 y)]) \<or> 4 \<le> \<bar>at x - at y\<bar>"
        using Cons.prems(2) by auto
      show "0 \<le> at y" "at y + 4 \<le> int (length ?p)" using r len by simp_all
      show "instruction_at ?p (at y) = [Opcode (opc y), operand (a1 y), operand (a2 y), operand (a3 y)]"
        using instruction_at_program_set_same[OF r] by simp
    qed
    then show ?thesis using True by simp
  next
    case False
    then have "x \<in> set ys" using Cons.prems(3) by simp
    then show ?thesis
      using Cons.IH[of ?p] Cons.prems(1,2) len by simp
  qed
qed


lemma scope_ok_mono: "scope_ok lo hi l \<Longrightarrow> hi \<le> hi' \<Longrightarrow> scope_ok lo hi' l"
  by (fastforce simp: scope_ok_def)

lemma scope_ok_new: "scope_ok lo hi new_Labels"
  by (simp add: scope_ok_def new_Labels_def separate_sites_def site_offsets_def)

lemma scope_ok_label: "scope_ok lo hi (Labels_label name i l) = scope_ok lo hi l"
  by (simp add: scope_ok_def Labels_label_def separate_sites_def site_offsets_def)

lemma scope_ok_jump:
  assumes "scope_ok lo hi l" "lo \<le> hi"
  shows "scope_ok lo (hi + 4) (Labels_jump hi T t l)"
proof -
  have b: "\<And>a. a \<in> site_offsets l \<Longrightarrow> lo \<le> a \<and> a + 4 \<le> hi"
    using assms(1) by (simp add: scope_ok_def)
  have j: "\<And>x. x \<in> set (jumps l) \<Longrightarrow> jump_at x + 4 \<le> hi"
    and r: "\<And>x. x \<in> set (ranges l) \<Longrightarrow> range_at x + 4 \<le> hi"
    and i: "\<And>x. x \<in> set (iters l) \<Longrightarrow> iter_at x + 4 \<le> hi"
    using b by (auto simp: site_offsets_def)
  have s: "separate_sites l" using assms(1) by (simp add: scope_ok_def)
  have "separate_sites (Labels_jump hi T t l)"
    using s j r i unfolding separate_sites_def Labels_jump_def
    by (simp add: ball_Un) (fastforce)
  moreover have "\<forall>a\<in>site_offsets (Labels_jump hi T t l). lo \<le> a \<and> a + 4 \<le> hi + 4"
    using b assms(2) by (fastforce simp: site_offsets_def Labels_jump_def)
  ultimately show ?thesis by (simp add: scope_ok_def)
qed

lemma scope_ok_range:
  assumes "scope_ok lo hi l" "lo \<le> hi"
  shows "scope_ok lo (hi + 4) (Labels_range hi T s e l)"
proof -
  have b: "\<And>a. a \<in> site_offsets l \<Longrightarrow> lo \<le> a \<and> a + 4 \<le> hi"
    using assms(1) by (simp add: scope_ok_def)
  have j: "\<And>x. x \<in> set (jumps l) \<Longrightarrow> jump_at x + 4 \<le> hi"
    and r: "\<And>x. x \<in> set (ranges l) \<Longrightarrow> range_at x + 4 \<le> hi"
    and i: "\<And>x. x \<in> set (iters l) \<Longrightarrow> iter_at x + 4 \<le> hi"
    using b by (auto simp: site_offsets_def)
  have s: "separate_sites l" using assms(1) by (simp add: scope_ok_def)
  have "separate_sites (Labels_range hi T s e l)"
    using s j r i unfolding separate_sites_def Labels_range_def
    by (simp add: ball_Un) (fastforce)
  moreover have "\<forall>a\<in>site_offsets (Labels_range hi T s e l). lo \<le> a \<and> a + 4 \<le> hi + 4"
    using b assms(2) by (fastforce simp: site_offsets_def Labels_range_def)
  ultimately show ?thesis by (simp add: scope_ok_def)
qed

lemma scope_ok_iter:
  assumes "scope_ok lo hi l" "lo \<le> hi"
  shows "scope_ok lo (hi + 4) (Labels_iter hi k s e l)"
proof -
  have b: "\<And>a. a \<in> site_offsets l \<Longrightarrow> lo \<le> a \<and> a + 4 \<le> hi"
    using assms(1) by (simp add: scope_ok_def)
  have j: "\<And>x. x \<in> set (jumps l) \<Longrightarrow> jump_at x + 4 \<le> hi"
    and r: "\<And>x. x \<in> set (ranges l) \<Longrightarrow> range_at x + 4 \<le> hi"
    and i: "\<And>x. x \<in> set (iters l) \<Longrightarrow> iter_at x + 4 \<le> hi"
    using b by (auto simp: site_offsets_def)
  have s: "separate_sites l" using assms(1) by (simp add: scope_ok_def)
  have "separate_sites (Labels_iter hi k s e l)"
    using s j r i unfolding separate_sites_def Labels_iter_def
    by (simp add: ball_Un) (fastforce)
  moreover have "\<forall>a\<in>site_offsets (Labels_iter hi k s e l). lo \<le> a \<and> a + 4 \<le> hi + 4"
    using b assms(2) by (fastforce simp: site_offsets_def Labels_iter_def)
  ultimately show ?thesis by (simp add: scope_ok_def)
qed


lemma push_simps:
  "fst (push n a1 a2 a3 b) = int (length (program b))"
  "program (snd (push n a1 a2 a3 b)) = program b @ [Opcode n, a1, a2, a3]"
  "labelsStack (snd (push n a1 a2 a3 b)) = labelsStack b"
  "start (snd (push n a1 a2 a3 b)) = start b"
  "locals (snd (push n a1 a2 a3 b)) = locals b"
  "localsSize (snd (push n a1 a2 a3 b)) = localsSize b"
  "constants (snd (push n a1 a2 a3 b)) = constants b"
  by (simp_all add: push_def program_push_def)

lemma reserve_simps:
  "program (reserve n b) = program b @ [Opcode n, Number 0, Number 0, Number 0]"
  "labelsStack (reserve n b) = labelsStack b"
  "start (reserve n b) = start b"
  "locals (reserve n b) = locals b"
  "localsSize (reserve n b) = localsSize b"
  "constants (reserve n b) = constants b"
  "pos (reserve n b) = int (length (program b))"
  by (simp_all add: reserve_def push_simps pos_def program_current_def)

lemma update_labels_simps:
  "program (snd (update_labels f b)) = program b"
  "start (snd (update_labels f b)) = start b"
  "locals (snd (update_labels f b)) = locals b"
  "localsSize (snd (update_labels f b)) = localsSize b"
  "constants (snd (update_labels f b)) = constants b"
  "labelsStack (snd (update_labels f b)) =
     (case labelsStack b of [] \<Rightarrow> [] | l # ls \<Rightarrow> f l # ls)"
  "fst (update_labels f b) =
     (if labelsStack b = [] then Inl (Error ''bug: not in a label stack'') else Inr ())"
  by (simp_all add: update_labels_def labels_getter_def split: list.splits)

lemma well_formed_push: "well_formed b \<Longrightarrow> well_formed (snd (push n a1 a2 a3 b))"
  by (auto simp: well_formed_def push_simps intro: scope_ok_mono)

lemma well_formed_add_site:
  assumes "well_formed b"
    and "\<And>l. scope_ok (start b + 4) (int (length (program b))) l
           \<Longrightarrow> scope_ok (start b + 4) (int (length (program b)) + 4) (f l)"
  shows "well_formed (snd (update_labels f (reserve n b)))"
proof (cases "labelsStack b")
  case Nil
  then show ?thesis
    using assms(1) by (simp add: well_formed_def update_labels_simps reserve_simps)
next
  case (Cons l ls)
  have "scope_ok (start b + 4) (int (length (program b)) + 4) (f l)"
    using assms Cons by (simp add: well_formed_def)
  moreover have "\<forall>l'\<in>set ls. scope_ok (start b + 4) (int (length (program b)) + 4) l'"
    using assms(1) Cons by (auto simp: well_formed_def intro: scope_ok_mono)
  ultimately show ?thesis
    using assms(1) Cons
    by (simp add: well_formed_def update_labels_simps reserve_simps add.commute)
qed

lemma well_formed_label: "well_formed b \<Longrightarrow> well_formed (snd (label name b))"
  by (cases "labelsStack b")
     (simp_all add: label_def well_formed_def update_labels_simps scope_ok_label)

lemma patch_as_program_set:
  "patch_jump l = (\<lambda>p j. program_set (jump_at j) (jump_Target j)
      (label_offset l (jump_target j)) None None p)"
  "patch_range l = (\<lambda>p r. program_set (range_at r) (range_Range r)
      (label_offset l (range_start r)) (label_offset_minus_4 l (range_end r)) None p)"
  "patch_iter l = (\<lambda>p i. program_set (iter_at i) Iterate
      (label_offset l (iter_breaks i)) (label_offset l (iter_start i))
      (label_offset_minus_4 l (iter_end i)) p)"
  by (intro ext, simp add: patch_jump_def patch_range_def patch_iter_def)+

lemma scope_ok_bounds:
  assumes "scope_ok lo hi l" "0 \<le> lo"
  shows "\<forall>x\<in>set (jumps l). 0 \<le> jump_at x \<and> jump_at x + 4 \<le> hi"
    and "\<forall>x\<in>set (ranges l). 0 \<le> range_at x \<and> range_at x + 4 \<le> hi"
    and "\<forall>x\<in>set (iters l). 0 \<le> iter_at x \<and> iter_at x + 4 \<le> hi"
proof -
  have "\<And>a. a \<in> site_offsets l \<Longrightarrow> 0 \<le> a \<and> a + 4 \<le> hi"
    using assms by (fastforce simp: scope_ok_def)
  then show "\<forall>x\<in>set (jumps l). 0 \<le> jump_at x \<and> jump_at x + 4 \<le> hi"
    and "\<forall>x\<in>set (ranges l). 0 \<le> range_at x \<and> range_at x + 4 \<le> hi"
    and "\<forall>x\<in>set (iters l). 0 \<le> iter_at x \<and> iter_at x + 4 \<le> hi"
    by (simp_all add: site_offsets_def)
qed

lemma length_Labels_patch:
  assumes "scope_ok lo (int (length p)) l" "0 \<le> lo"
  shows "length (Labels_patch l p) = length p"
proof -
  note b = scope_ok_bounds[OF assms]
  have 1: "length (foldl (patch_jump l) p (jumps l)) = length p"
    unfolding patch_as_program_set using b(1) by (rule length_foldl_program_set)
  have 2: "length (foldl (patch_range l) (foldl (patch_jump l) p (jumps l)) (ranges l)) = length p"
    unfolding patch_as_program_set(2)
    using b(2) 1 by (subst length_foldl_program_set) simp_all
  show ?thesis
    unfolding Labels_patch_def patch_as_program_set(3)
    using b(3) 1 2 by (subst length_foldl_program_set) simp_all
qed

lemma well_formed_stopLabels: "well_formed b \<Longrightarrow> well_formed (snd (stopLabels b))"
proof (cases "labelsStack b")
  case Nil
  assume "well_formed b"
  then show ?thesis using Nil by (simp add: stopLabels_def)
next
  case (Cons l ls)
  assume w: "well_formed b"
  then have "scope_ok (start b + 4) (int (length (program b))) l" "0 \<le> start b + 4"
    using Cons by (simp_all add: well_formed_def)
  then have "length (Labels_patch l (program b)) = length (program b)"
    by (rule length_Labels_patch)
  then show ?thesis using w Cons by (simp add: stopLabels_def well_formed_def)
qed

lemma well_formed_perform: "well_formed b \<Longrightarrow> well_formed (snd (perform c b))"
proof (cases c)
  case (CallPush n a1 a2 a3)
  assume "well_formed b" then show ?thesis using CallPush by (simp add: well_formed_push)
next
  case CallLocal
  assume "well_formed b" then show ?thesis using CallLocal
    by (simp add: well_formed_def local_simps)
next
  case CallReleaseLocal
  assume "well_formed b" then show ?thesis using CallReleaseLocal
    by (simp add: well_formed_def releaseLocal_simps)
next
  case CallStartLabels
  assume "well_formed b" then show ?thesis using CallStartLabels
    by (simp add: well_formed_def startLabels_def scope_ok_new)
next
  case CallStopLabels
  assume "well_formed b" then show ?thesis using CallStopLabels
    by (simp add: well_formed_stopLabels)
next
  case (CallLabel name)
  assume "well_formed b" then show ?thesis using CallLabel by (simp add: well_formed_label)
next
  case (CallJump t)
  assume w: "well_formed b"
  then have "start b + 4 \<le> int (length (program b))" by (simp add: well_formed_def)
  then show ?thesis using CallJump w
    by (simp add: jump_def Let_def reserve_simps well_formed_add_site scope_ok_jump)
next
  case (CallJumpIf t)
  assume w: "well_formed b"
  then have "start b + 4 \<le> int (length (program b))" by (simp add: well_formed_def)
  then show ?thesis using CallJumpIf w
    by (simp add: jumpIf_def Let_def reserve_simps well_formed_add_site scope_ok_jump)
next
  case (CallJumpUnless t)
  assume w: "well_formed b"
  then have "start b + 4 \<le> int (length (program b))" by (simp add: well_formed_def)
  then show ?thesis using CallJumpUnless w
    by (simp add: jumpUnless_def Let_def reserve_simps well_formed_add_site scope_ok_jump)
next
  case (CallEnter s e)
  assume w: "well_formed b"
  then have "start b + 4 \<le> int (length (program b))" by (simp add: well_formed_def)
  then show ?thesis using CallEnter w
    by (simp add: enter_def Let_def reserve_simps well_formed_add_site scope_ok_range)
next
  case (CallEnterList s e)
  assume w: "well_formed b"
  then have "start b + 4 \<le> int (length (program b))" by (simp add: well_formed_def)
  then show ?thesis using CallEnterList w
    by (simp add: enterList_def Let_def reserve_simps well_formed_add_site scope_ok_range)
next
  case (CallIterate k s e)
  assume w: "well_formed b"
  then have "start b + 4 \<le> int (length (program b))" by (simp add: well_formed_def)
  then show ?thesis using CallIterate w
    by (simp add: iterate_def Let_def reserve_simps well_formed_add_site scope_ok_iter)
qed

lemma well_formed_run: "well_formed b \<Longrightarrow> well_formed (snd (run cs b))"
proof (induction cs arbitrary: b)
  case Nil
  then show ?case by simp
next
  case (Cons c cs)
  obtain r b' where p: "perform c b = (r, b')" by (cases "perform c b")
  have "well_formed b'" using well_formed_perform[OF Cons.prems, of c] p by simp
  then show ?case using Cons.IH[of b'] p by (cases r) simp_all
qed

lemma well_formed_new: "well_formed (new_BasicOpcodeBuilder cs p)"
  by (simp add: well_formed_def new_BasicOpcodeBuilder_def reserve_simps program_next_def)


lemma operand_simps: "operand None = Number 0" "operand (Some v) = v"
  by (simp_all add: operand_def)

lemma separate_sitesD:
  assumes "separate_sites l"
  shows "\<And>x y. x \<in> set (jumps l) \<Longrightarrow> y \<in> set (jumps l) \<Longrightarrow> x = y \<or> 4 \<le> \<bar>jump_at x - jump_at y\<bar>"
    and "\<And>x y. x \<in> set (ranges l) \<Longrightarrow> y \<in> set (ranges l) \<Longrightarrow> x = y \<or> 4 \<le> \<bar>range_at x - range_at y\<bar>"
    and "\<And>x y. x \<in> set (iters l) \<Longrightarrow> y \<in> set (iters l) \<Longrightarrow> x = y \<or> 4 \<le> \<bar>iter_at x - iter_at y\<bar>"
    and "\<And>x y. x \<in> set (jumps l) \<Longrightarrow> y \<in> set (ranges l) \<Longrightarrow> 4 \<le> \<bar>jump_at x - range_at y\<bar>"
    and "\<And>x y. x \<in> set (jumps l) \<Longrightarrow> y \<in> set (iters l) \<Longrightarrow> 4 \<le> \<bar>jump_at x - iter_at y\<bar>"
    and "\<And>x y. x \<in> set (ranges l) \<Longrightarrow> y \<in> set (iters l) \<Longrightarrow> 4 \<le> \<bar>range_at x - iter_at y\<bar>"
  using assms unfolding separate_sites_def by blast+

lemma Labels_patch_jump:
  assumes ok: "scope_ok lo (int (length p)) l" and lo: "0 \<le> lo" and j: "j \<in> set (jumps l)"
  shows "instruction_at (Labels_patch l p) (jump_at j) =
    [Opcode (jump_Target j), operand (label_offset l (jump_target j)), Number 0, Number 0]"
proof -
  note b = scope_ok_bounds[OF ok lo]
  have sep: "separate_sites l" using ok by (simp add: scope_ok_def)
  note d = separate_sitesD[OF sep]
  let ?v = "[Opcode (jump_Target j), operand (label_offset l (jump_target j)), Number 0, Number 0]"
  let ?p1 = "foldl (patch_jump l) p (jumps l)"
  let ?p2 = "foldl (patch_range l) ?p1 (ranges l)"
  have l1: "length ?p1 = length p"
    unfolding patch_as_program_set using b(1) by (rule length_foldl_program_set)
  have l2: "length ?p2 = length p"
    unfolding patch_as_program_set(2) using b(2) l1 by (subst length_foldl_program_set) simp_all
  have 1: "instruction_at ?p1 (jump_at j) = ?v"
    unfolding patch_as_program_set
    using foldl_program_set_writes[where at = jump_at and xs = "jumps l" and p = p and x = j
        and opc = jump_Target and ?a1.0 = "\<lambda>j. label_offset l (jump_target j)"
        and ?a2.0 = "\<lambda>_. None" and ?a3.0 = "\<lambda>_. None"] b(1) d(1) j
    by (simp add: operand_simps)
  have 2: "instruction_at ?p2 (jump_at j) = ?v"
    unfolding patch_as_program_set(2)
  proof (rule foldl_program_set_keeps)
    show "\<forall>x\<in>set (ranges l). 0 \<le> range_at x \<and> range_at x + 4 \<le> int (length ?p1)"
      using b(2) l1 by simp
    show "\<forall>x\<in>set (ranges l).
       range_at x = jump_at j \<and>
       [Opcode (range_Range x), operand (label_offset l (range_start x)),
        operand (label_offset_minus_4 l (range_end x)), operand None] = ?v \<or>
       4 \<le> \<bar>range_at x - jump_at j\<bar>"
      using d(4)[OF j] by (auto simp: abs_minus_commute)
    show "0 \<le> jump_at j" "jump_at j + 4 \<le> int (length ?p1)" using b(1) j l1 by simp_all
    show "instruction_at ?p1 (jump_at j) = ?v" by (rule 1)
  qed
  show ?thesis
    unfolding Labels_patch_def patch_as_program_set(3)
  proof (rule foldl_program_set_keeps)
    show "\<forall>x\<in>set (iters l). 0 \<le> iter_at x \<and> iter_at x + 4 \<le> int (length ?p2)"
      using b(3) l2 by simp
    show "\<forall>x\<in>set (iters l).
       iter_at x = jump_at j \<and>
       [Opcode Iterate, operand (label_offset l (iter_breaks x)),
        operand (label_offset l (iter_start x)), operand (label_offset_minus_4 l (iter_end x))] = ?v \<or>
       4 \<le> \<bar>iter_at x - jump_at j\<bar>"
      using d(5)[OF j] by (auto simp: abs_minus_commute)
    show "0 \<le> jump_at j" "jump_at j + 4 \<le> int (length ?p2)" using b(1) j l2 by simp_all
    show "instruction_at ?p2 (jump_at j) = ?v" by (rule 2)
  qed
qed

lemma Labels_patch_range:
  assumes ok: "scope_ok lo (int (length p)) l" and lo: "0 \<le> lo" and r: "r \<in> set (ranges l)"
  shows "instruction_at (Labels_patch l p) (range_at r) =
    [Opcode (range_Range r), operand (label_offset l (range_start r)),
     operand (label_offset_minus_4 l (range_end r)), Number 0]"
proof -
  note b = scope_ok_bounds[OF ok lo]
  have sep: "separate_sites l" using ok by (simp add: scope_ok_def)
  note d = separate_sitesD[OF sep]
  let ?v = "[Opcode (range_Range r), operand (label_offset l (range_start r)),
     operand (label_offset_minus_4 l (range_end r)), Number 0]"
  let ?p1 = "foldl (patch_jump l) p (jumps l)"
  let ?p2 = "foldl (patch_range l) ?p1 (ranges l)"
  have l1: "length ?p1 = length p"
    unfolding patch_as_program_set using b(1) by (rule length_foldl_program_set)
  have l2: "length ?p2 = length p"
    unfolding patch_as_program_set(2) using b(2) l1 by (subst length_foldl_program_set) simp_all
  have 2: "instruction_at ?p2 (range_at r) = ?v"
    unfolding patch_as_program_set(2)
    using foldl_program_set_writes[where at = range_at and xs = "ranges l" and p = ?p1 and x = r
        and opc = range_Range and ?a1.0 = "\<lambda>r. label_offset l (range_start r)"
        and ?a2.0 = "\<lambda>r. label_offset_minus_4 l (range_end r)" and ?a3.0 = "\<lambda>_. None"]
      b(2) d(2) r l1
    by (simp add: operand_simps)
  show ?thesis
    unfolding Labels_patch_def patch_as_program_set(3)
  proof (rule foldl_program_set_keeps)
    show "\<forall>x\<in>set (iters l). 0 \<le> iter_at x \<and> iter_at x + 4 \<le> int (length ?p2)"
      using b(3) l2 by simp
    show "\<forall>x\<in>set (iters l).
       iter_at x = range_at r \<and>
       [Opcode Iterate, operand (label_offset l (iter_breaks x)),
        operand (label_offset l (iter_start x)), operand (label_offset_minus_4 l (iter_end x))] = ?v \<or>
       4 \<le> \<bar>iter_at x - range_at r\<bar>"
      using d(6)[OF r] by (auto simp: abs_minus_commute)
    show "0 \<le> range_at r" "range_at r + 4 \<le> int (length ?p2)" using b(2) r l2 by simp_all
    show "instruction_at ?p2 (range_at r) = ?v" by (rule 2)
  qed
qed

lemma Labels_patch_iter:
  assumes ok: "scope_ok lo (int (length p)) l" and lo: "0 \<le> lo" and i: "i \<in> set (iters l)"
  shows "instruction_at (Labels_patch l p) (iter_at i) =
    [Opcode Iterate, operand (label_offset l (iter_breaks i)),
     operand (label_offset l (iter_start i)), operand (label_offset_minus_4 l (iter_end i))]"
proof -
  note b = scope_ok_bounds[OF ok lo]
  have sep: "separate_sites l" using ok by (simp add: scope_ok_def)
  note d = separate_sitesD[OF sep]
  let ?p1 = "foldl (patch_jump l) p (jumps l)"
  let ?p2 = "foldl (patch_range l) ?p1 (ranges l)"
  have l1: "length ?p1 = length p"
    unfolding patch_as_program_set using b(1) by (rule length_foldl_program_set)
  have l2: "length ?p2 = length p"
    unfolding patch_as_program_set(2) using b(2) l1 by (subst length_foldl_program_set) simp_all
  show ?thesis
    unfolding Labels_patch_def patch_as_program_set(3)
    using foldl_program_set_writes[where at = iter_at and xs = "iters l" and p = ?p2 and x = i
        and opc = "\<lambda>_. Iterate" and ?a1.0 = "\<lambda>i. label_offset l (iter_breaks i)"
        and ?a2.0 = "\<lambda>i. label_offset l (iter_start i)"
        and ?a3.0 = "\<lambda>i. label_offset_minus_4 l (iter_end i)"]
      b(3) d(3) i l2
    by simp
qed


lemma stopLabels_simps:
  "start (snd (stopLabels b)) = start b"
  "locals (snd (stopLabels b)) = locals b"
  "localsSize (snd (stopLabels b)) = localsSize b"
  "fst (stopLabels b) =
     (if labelsStack b = [] then Inl (Error ''unbalanced push and pop labels'') else Inr ())"
  by (simp_all add: stopLabels_def split: list.splits)

lemma perform_simps:
  "start (snd (perform c b)) = start b"
  "locals (snd (perform c b)) =
     (case c of CallLocal \<Rightarrow> locals b + 1 | CallReleaseLocal \<Rightarrow> locals b - 1 | _ \<Rightarrow> locals b)"
  "localsSize (snd (perform c b)) =
     (case c of CallLocal \<Rightarrow> max (localsSize b) (locals b + 1) | _ \<Rightarrow> localsSize b)"
  by (cases c; simp add: push_simps local_simps releaseLocal_simps startLabels_def
        stopLabels_simps label_def jump_def jumpIf_def jumpUnless_def enter_def enterList_def
        iterate_def Let_def update_labels_simps reserve_simps)+

lemma run_snoc:
  "run (xs @ [c]) b =
     (case run xs b of (Inl e, b') \<Rightarrow> (Inl e, b') | (Inr u, b') \<Rightarrow> perform c b')"
proof (induction xs arbitrary: b)
  case Nil
  show ?case by (cases "perform c b" rule: prod.exhaust) (auto split: sum.splits)
next
  case (Cons x xs)
  show ?case
    by (cases "perform x b" rule: prod.exhaust) (auto simp: Cons.IH split: sum.splits)
qed

lemma start_run: "start (snd (run cs b)) = start b"
proof (induction cs arbitrary: b)
  case Nil
  show ?case by simp
next
  case (Cons c cs)
  obtain r b' where p: "perform c b = (r, b')" by (cases "perform c b")
  have "start b' = start b" using perform_simps(1)[of c b] p by simp
  then show ?case using Cons.IH[of b'] p by (cases r) simp_all
qed

lemma localsSize_run:
  assumes "localsSize b0 = locals b0"
  shows "localsSize (snd (run cs b0)) = Max ((\<lambda>n. locals (snd (run (take n cs) b0))) ` {0..length cs})"
proof (induction cs rule: rev_induct)
  case Nil
  show ?case using assms by simp
next
  case (snoc c xs)
  let ?A = "(\<lambda>n. locals (snd (run (take n xs) b0))) ` {0..length xs}"
  let ?b = "snd (run xs b0)"
  let ?x = "locals (snd (run (xs @ [c]) b0))"
  have img: "(\<lambda>n. locals (snd (run (take n (xs @ [c])) b0))) ` {0..length (xs @ [c])} = insert ?x ?A"
  proof -
    have "{0..length (xs @ [c])} = insert (Suc (length xs)) {0..length xs}"
      by (auto simp: atLeastAtMostSuc_conv)
    moreover have "(\<lambda>n. locals (snd (run (take n (xs @ [c])) b0))) ` {0..length xs} = ?A"
      by (rule image_cong) simp_all
    ultimately show ?thesis by simp
  qed
  have fin: "finite ?A" "?A \<noteq> {}" by simp_all
  have mem: "locals ?b \<in> ?A" by (rule image_eqI[where x = "length xs"]) simp_all
  then have le: "locals ?b \<le> Max ?A" using fin by simp
  have IH: "localsSize ?b = Max ?A" by (rule snoc.IH)
  obtain r b' where rx: "run xs b0 = (r, b')" by (cases "run xs b0")
  have "localsSize (snd (run (xs @ [c]) b0)) = max ?x (Max ?A)"
  proof (cases r)
    case (Inl e)
    then show ?thesis using rx IH le by (simp add: run_snoc)
  next
    case (Inr u)
    then have eq: "snd (run (xs @ [c]) b0) = snd (perform c ?b)" using rx by (simp add: run_snoc)
    show ?thesis unfolding eq using IH le
      by (simp add: perform_simps max.commute split: call.splits)
  qed
  then show ?case unfolding img using fin by (simp add: max.commute)
qed

lemma run_take_ok:
  "fst (run cs b) = Inr () \<Longrightarrow> fst (run (take n cs) b) = Inr ()"
proof (induction cs arbitrary: n b)
  case Nil
  then show ?case by simp
next
  case (Cons c cs)
  obtain r b' where p: "perform c b = (r, b')" by (cases "perform c b")
  show ?case
  proof (cases n)
    case 0
    then show ?thesis by simp
  next
    case (Suc m)
    show ?thesis using Cons.prems Cons.IH[of b' m] p Suc by (cases r) simp_all
  qed
qed

lemma locals_run:
  "fst (run cs b) = Inr () \<Longrightarrow>
   locals (snd (run cs b)) = locals b + int (count_list cs CallLocal) - int (count_list cs CallReleaseLocal)"
proof (induction cs arbitrary: b)
  case Nil
  then show ?case by simp
next
  case (Cons c cs)
  obtain r b' where p: "perform c b = (r, b')" by (cases "perform c b")
  have l: "locals b' =
     (case c of CallLocal \<Rightarrow> locals b + 1 | CallReleaseLocal \<Rightarrow> locals b - 1 | _ \<Rightarrow> locals b)"
    using perform_simps(2)[of c b] p by simp
  show ?case
  proof (cases r)
    case (Inl e)
    then show ?thesis using Cons.prems p by simp
  next
    case (Inr u)
    then have "fst (run cs b') = Inr ()" using Cons.prems p by simp
    then have "locals (snd (run cs b')) =
        locals b' + int (count_list cs CallLocal) - int (count_list cs CallReleaseLocal)"
      by (rule Cons.IH)
    then show ?thesis using p Inr l by (cases c) simp_all
  qed
qed

lemma length_program_run:
  "start (new_BasicOpcodeBuilder k p0) = int (length p0)"
  "int (length p0) + 4 \<le> int (length (program (snd (run cs (new_BasicOpcodeBuilder k p0)))))"
proof -
  show s: "start (new_BasicOpcodeBuilder k p0) = int (length p0)"
    by (simp add: new_BasicOpcodeBuilder_def reserve_simps program_next_def)
  have "well_formed (snd (run cs (new_BasicOpcodeBuilder k p0)))"
    by (rule well_formed_run) (rule well_formed_new)
  then show "int (length p0) + 4 \<le> int (length (program (snd (run cs (new_BasicOpcodeBuilder k p0)))))"
    using s by (simp add: well_formed_def start_run)
qed

lemma take_bit_sint32: "n \<le> 32 \<Longrightarrow> take_bit n (sint (w :: 32 word)) = take_bit n (uint w)"
  by (simp add: sint_uint take_bit_signed_take_bit)

lemma take_bit_32_uint: "take_bit 32 (uint (w :: 32 word)) = uint w"
  using uint_lt2p[of w] by (simp add: take_bit_eq_mod)

lemma uint_encode_primitive:
  assumes "0 \<le> p" "p < 2 ^ 30" "0 \<le> f" "f < 4"
  shows "uint (encode_primitive f p) = push_bit 30 f OR p"
proof -
  have "uint (word_of_int p :: 32 word) = p"
    using assms(1,2) by (simp add: uint_word_of_int)
  moreover have "uint (push_bit 30 (word_of_int f :: 32 word)) = push_bit 30 f"
  proof -
    have "uint (word_of_int f :: 32 word) = f"
      using assms(3,4) by (simp add: uint_word_of_int)
    then have "uint (push_bit 30 (word_of_int f :: 32 word)) = take_bit 32 (push_bit 30 f)"
      by (simp add: unsigned_push_bit_eq)
    also have "\<dots> = push_bit 30 (take_bit 2 f)" by (simp add: take_bit_push_bit)
    also have "take_bit 2 f = f" using assms(3,4) by (simp add: take_bit_eq_mod)
    finally show ?thesis .
  qed
  ultimately show ?thesis by (simp add: encode_primitive_def uint_or)
qed

lemma primitive_flag_encode:
  assumes "0 \<le> p" "p < 2 ^ 30" "0 \<le> f" "f < 4"
  shows "primitive_flag (sint (encode_primitive f p)) = f"
proof -
  have "drop_bit 30 p = 0" using assms(1,2) by (simp add: drop_bit_eq_div)
  moreover have "take_bit 32 (sint (encode_primitive f p)) = uint (encode_primitive f p)"
    by (simp only: take_bit_sint32[OF order_refl] take_bit_32_uint)
  then have "take_bit 32 (sint (encode_primitive f p)) = push_bit 30 f OR p"
    by (simp only: uint_encode_primitive[OF assms])
  ultimately show ?thesis
    by (simp add: primitive_flag_def drop_bit_push_bit)
qed

lemma primitive_payload_encode:
  assumes "0 \<le> p" "p < 2 ^ 30" "0 \<le> f" "f < 4"
  shows "primitive_payload (sint (encode_primitive f p)) = p"
proof -
  have "take_bit 30 p = p" using assms(1,2) by (simp add: take_bit_eq_mod)
  moreover have "take_bit 30 (sint (encode_primitive f p)) = take_bit 30 (push_bit 30 f OR p)"
    by (simp only: take_bit_sint32[of 30, simplified] uint_encode_primitive[OF assms])
  ultimately show ?thesis
    by (simp add: primitive_payload_def take_bit_push_bit)
qed

lemma reached_scope_ok:
  assumes "b = snd (run calls (new_BasicOpcodeBuilder k p0))" "labelsStack b = l # ls"
  shows "scope_ok (start b + 4) (int (length (program b))) l" "0 \<le> start b + 4"
proof -
  have "well_formed b" unfolding assms(1) by (rule well_formed_run) (rule well_formed_new)
  then show "scope_ok (start b + 4) (int (length (program b))) l" "0 \<le> start b + 4"
    using assms(2) by (simp_all add: well_formed_def)
qed

lemma program_stopLabels:
  "labelsStack b = l # ls \<Longrightarrow> program (snd (stopLabels b)) = Labels_patch l (program b)"
  by (simp add: stopLabels_def)

lemmas eval_builder =
  stopLabels_def jump_def jumpIf_def jumpUnless_def enter_def enterList_def iterate_def label_def
  Let_def update_labels_def labels_getter_def reserve_def
  push_def program_push_def startLabels_def new_BasicOpcodeBuilder_def new_Labels_def
  Labels_jump_def Labels_range_def Labels_iter_def Labels_label_def
  Labels_patch_def patch_jump_def patch_range_def patch_iter_def
  program_set_def store_def operand_def
  label_offset_def label_offset_minus_4_def pos_def nextPos_def program_current_def program_next_def
  finalize_def instruction_at_def local_def releaseLocal_def

section \<open>The tree builders on the tests of the repository\<close>

text \<open>
  The tests \<^verbatim>\<open>'mismatched elements'\<close>, \<^verbatim>\<open>'extra nodes at the end'\<close>, \<^verbatim>\<open>'clearing bounds'\<close>,
  \<^verbatim>\<open>'top-level clearing bounds'\<close> and \<^verbatim>\<open>'#each rehydration'\<close> of the suite \<^verbatim>\<open>Rehydration\<close>: the
  server output, the rehydrated tree and the count of removed nodes that each test asserts.
\<close>

lemmas eval_render =
  Create_def Rehydrate_def execute_def create_def removed_count_def mismatch_def
  placeholder_if_empty_def attributes_def repair_attributes_def

lemma test_mismatched_elements:
  "Create
     [IfBlock ''admin'' [ElementStatement ''div'' [] [StaticText ''hi admin'']]
        [ElementStatement ''p'' [] [StaticText ''HAXOR'']]]
     [(''admin'', Truth True)]
   = [StartMarker, StartMarker, Element ''div'' Map.empty [TextNode ''hi admin''], EndMarker,
      EndMarker]
   \<and> Rehydrate
     [IfBlock ''admin'' [ElementStatement ''div'' [] [StaticText ''hi admin'']]
        [ElementStatement ''p'' [] [StaticText ''HAXOR'']]]
     [(''admin'', Truth False)]
     [StartMarker, StartMarker, Element ''div'' Map.empty [TextNode ''hi admin''], EndMarker,
      EndMarker]
   = ([Element ''p'' Map.empty [TextNode ''HAXOR'']], 1)"
  by (simp add: eval_render)

lemma test_extra_nodes_at_the_end:
  "Create
     [IfBlock ''admin'' [ElementStatement ''div'' [] [StaticText ''hi admin'']]
        [ElementStatement ''div'' [] [StaticText ''HAXOR'', Content ''stopHaxing'']]]
     [(''admin'', Truth False), (''stopHaxing'', TextValue ''stahp'')]
   = [StartMarker, StartMarker,
      Element ''div'' Map.empty [TextNode ''HAXOR'', StartMarker, TextNode ''stahp'', EndMarker],
      EndMarker, EndMarker]
   \<and> Rehydrate
     [IfBlock ''admin'' [ElementStatement ''div'' [] [StaticText ''hi admin'']]
        [ElementStatement ''div'' [] [StaticText ''HAXOR'', Content ''stopHaxing'']]]
     [(''admin'', Truth True)]
     [StartMarker, StartMarker,
      Element ''div'' Map.empty [TextNode ''HAXOR'', StartMarker, TextNode ''stahp'', EndMarker],
      EndMarker, EndMarker]
   = ([Element ''div'' Map.empty [TextNode ''hi admin'']], 1)"
  by (simp add: eval_render)

lemma test_clearing_bounds:
  "Create
     [IfBlock ''isTrue''
        [EachBlock ''items''
           [ElementStatement ''p'' [] [Content ''item'', StaticText ''-'', Content ''i'']]] []]
     [(''isTrue'', Truth True),
      (''items'', Items [[(''item'', TextValue ''1''), (''i'', TextValue ''0'')],
                         [(''item'', TextValue ''2''), (''i'', TextValue ''1'')]])]
   = [StartMarker, StartMarker, StartMarker, StartMarker,
      StartMarker,
      Element ''p'' Map.empty
        [StartMarker, TextNode ''1'', EndMarker, TextNode ''-'',
         StartMarker, TextNode ''0'', EndMarker],
      EndMarker,
      StartMarker,
      Element ''p'' Map.empty
        [StartMarker, TextNode ''2'', EndMarker, TextNode ''-'',
         StartMarker, TextNode ''1'', EndMarker],
      EndMarker,
      EndMarker, EndMarker, EndMarker, EndMarker]
   \<and> Rehydrate
     [IfBlock ''isTrue''
        [EachBlock ''items''
           [ElementStatement ''p'' [] [Content ''item'', StaticText ''-'', Content ''i'']]] []]
     [(''isTrue'', Truth False),
      (''items'', Items [[(''item'', TextValue ''3''), (''i'', TextValue ''0'')],
                         [(''item'', TextValue ''4''), (''i'', TextValue ''1'')]])]
     [StartMarker, StartMarker, StartMarker, StartMarker,
      StartMarker,
      Element ''p'' Map.empty
        [StartMarker, TextNode ''1'', EndMarker, TextNode ''-'',
         StartMarker, TextNode ''0'', EndMarker],
      EndMarker,
      StartMarker,
      Element ''p'' Map.empty
        [StartMarker, TextNode ''2'', EndMarker, TextNode ''-'',
         StartMarker, TextNode ''1'', EndMarker],
      EndMarker,
      EndMarker, EndMarker, EndMarker, EndMarker]
   = ([CommentNode []], 2)"
  by (simp add: eval_render)

lemma test_top_level_clearing_bounds:
  "Create
     [ElementStatement ''top'' []
        [IfBlock ''isTrue''
           [ElementStatement ''inside'' []
              [EachBlock ''items''
                 [ElementStatement ''p'' [] [Content ''item'', StaticText ''-'', Content ''i'']]]]
           []],
      IfBlock ''isFalse''
        [EachBlock ''items''
           [ElementStatement ''p'' [] [Content ''item'', StaticText ''-'', Content ''i'']]] []]
     [(''isTrue'', Truth True), (''isFalse'', Truth False),
      (''items'', Items [[(''item'', TextValue ''1''), (''i'', TextValue ''0'')],
                         [(''item'', TextValue ''2''), (''i'', TextValue ''1'')]])]
   = [StartMarker,
      Element ''top'' Map.empty
        [StartMarker,
         Element ''inside'' Map.empty
           [StartMarker, StartMarker,
            StartMarker,
            Element ''p'' Map.empty
              [StartMarker, TextNode ''1'', EndMarker, TextNode ''-'',
               StartMarker, TextNode ''0'', EndMarker],
            EndMarker,
            StartMarker,
            Element ''p'' Map.empty
              [StartMarker, TextNode ''2'', EndMarker, TextNode ''-'',
               StartMarker, TextNode ''1'', EndMarker],
            EndMarker,
            EndMarker, EndMarker],
         EndMarker],
      StartMarker, CommentNode [], EndMarker,
      EndMarker]
   \<and> Rehydrate
     [ElementStatement ''top'' []
        [IfBlock ''isTrue''
           [ElementStatement ''inside'' []
              [EachBlock ''items''
                 [ElementStatement ''p'' [] [Content ''item'', StaticText ''-'', Content ''i'']]]]
           []],
      IfBlock ''isFalse''
        [EachBlock ''items''
           [ElementStatement ''p'' [] [Content ''item'', StaticText ''-'', Content ''i'']]] []]
     [(''isTrue'', Truth False), (''isFalse'', Truth True),
      (''items'', Items [[(''item'', TextValue ''3''), (''i'', TextValue ''0'')],
                         [(''item'', TextValue ''4''), (''i'', TextValue ''1'')]])]
     [StartMarker,
      Element ''top'' Map.empty
        [StartMarker,
         Element ''inside'' Map.empty
           [StartMarker, StartMarker,
            StartMarker,
            Element ''p'' Map.empty
              [StartMarker, TextNode ''1'', EndMarker, TextNode ''-'',
               StartMarker, TextNode ''0'', EndMarker],
            EndMarker,
            StartMarker,
            Element ''p'' Map.empty
              [StartMarker, TextNode ''2'', EndMarker, TextNode ''-'',
               StartMarker, TextNode ''1'', EndMarker],
            EndMarker,
            EndMarker, EndMarker],
         EndMarker],
      StartMarker, CommentNode [], EndMarker,
      EndMarker]
   = ([Element ''top'' Map.empty [CommentNode []],
       Element ''p'' Map.empty [TextNode ''3'', TextNode ''-'', TextNode ''0''],
       Element ''p'' Map.empty [TextNode ''4'', TextNode ''-'', TextNode ''1'']], 1)"
  by (simp add: eval_render)

lemma test_each_rehydration:
  "Create
     [EachBlock ''items'' [ElementStatement ''p'' [] [Content ''item'']]]
     [(''items'', Items [[(''item'', TextValue ''1'')], [(''item'', TextValue ''2'')],
                         [(''item'', TextValue ''3'')]])]
   = [StartMarker, StartMarker, StartMarker,
      StartMarker, Element ''p'' Map.empty [StartMarker, TextNode ''1'', EndMarker], EndMarker,
      StartMarker, Element ''p'' Map.empty [StartMarker, TextNode ''2'', EndMarker], EndMarker,
      StartMarker, Element ''p'' Map.empty [StartMarker, TextNode ''3'', EndMarker], EndMarker,
      EndMarker, EndMarker, EndMarker]
   \<and> Rehydrate
     [EachBlock ''items'' [ElementStatement ''p'' [] [Content ''item'']]]
     [(''items'', Items [[(''item'', TextValue ''1'')], [(''item'', TextValue ''2'')],
                         [(''item'', TextValue ''4'')]])]
     [StartMarker, StartMarker, StartMarker,
      StartMarker, Element ''p'' Map.empty [StartMarker, TextNode ''1'', EndMarker], EndMarker,
      StartMarker, Element ''p'' Map.empty [StartMarker, TextNode ''2'', EndMarker], EndMarker,
      StartMarker, Element ''p'' Map.empty [StartMarker, TextNode ''3'', EndMarker], EndMarker,
      EndMarker, EndMarker, EndMarker]
   = ([Element ''p'' Map.empty [TextNode ''1''], Element ''p'' Map.empty [TextNode ''2''],
       Element ''p'' Map.empty [TextNode ''4'']], 0)"
  by (simp add: eval_render)

section \<open>Local registers and finalization\<close>

text \<open>
  Claim C7. Local register allocation is a counter: \<open>local\<close> returns the current value of
  the counter and increments it; \<open>releaseLocal\<close> decrements the counter, whatever register
  the caller means to release and whatever the counter holds (nothing is checked, nothing
  fails); and the \<open>local\<close> that follows a \<open>releaseLocal\<close> returns the index that was live
  last: the counter before the release, less one, which after an allocation is the very
  index that allocation returned.
\<close>

theorem local_is_a_counter:
  "fst (local b) = locals b
   \<and> locals (snd (local b)) = locals b + 1
   \<and> locals (releaseLocal b) = locals b - 1
   \<and> fst (local (releaseLocal b)) = locals b - 1
   \<and> fst (local (releaseLocal (snd (local b)))) = fst (local b)"
  by (simp add: local_simps releaseLocal_simps)

text \<open>
  Claim C6. The constructor reserves a slot at the start position, the value of \<open>next\<close> of
  the program it is given: it pushes \<open>ReserveLocals\<close> with operands 0 there. After any
  sequence of builder calls, \<open>finalize\<close> writes into exactly that slot the instruction
  \<open>ReserveLocals\<close> with \<open>localsSize\<close> as its operand, leaves every other slot as it was,
  and appends \<open>ReleaseLocals\<close> at the end of the program. When no call of the sequence
  threw, that operand is the register high-water mark: the greatest number of locals
  allocated at one time, which is the greatest value, over the prefixes of the sequence
  (the empty one among them), of the number of calls of \<open>local\<close> less the number of calls
  of \<open>releaseLocal\<close>.
\<close>

theorem finalize_writes_reserved_slot:
  "let b0 = new_BasicOpcodeBuilder k p0;
       b = snd (run calls b0);
       b' = snd (finalize b)
   in start b0 = int (length p0)
    \<and> program b0 = p0 @ [Opcode ReserveLocals, Number 0, Number 0, Number 0]
    \<and> start b = start b0
    \<and> program b' =
        take (length p0) (program b)
          @ [Opcode ReserveLocals, Number (localsSize b), Number 0, Number 0]
          @ drop (length p0 + 4) (program b)
          @ [Opcode ReleaseLocals, Number 0, Number 0, Number 0]
    \<and> (fst (run calls b0) = Inr () \<longrightarrow>
         localsSize b =
           Max ((\<lambda>n. int (count_list (take n calls) CallLocal)
                      - int (count_list (take n calls) CallReleaseLocal)) ` {0..length calls}))"
proof -
  let ?i = "new_BasicOpcodeBuilder k p0"
  let ?b = "snd (run calls ?i)"
  have s0: "start ?i = int (length p0)" by (rule length_program_run(1))
  have p0: "program ?i = p0 @ [Opcode ReserveLocals, Number 0, Number 0, Number 0]"
    by (simp add: new_BasicOpcodeBuilder_def reserve_simps)
  have s: "start ?b = start ?i" by (rule start_run)
  have len: "int (length p0) + 4 \<le> int (length (program ?b))" by (rule length_program_run(2))
  have "program (snd (finalize ?b)) =
      program_set (int (length p0)) ReserveLocals (Some (Number (localsSize ?b))) None None (program ?b)
        @ [Opcode ReleaseLocals, Number 0, Number 0, Number 0]"
    using s s0 by (simp add: finalize_def push_simps)
  then have fin: "program (snd (finalize ?b)) =
        take (length p0) (program ?b)
          @ [Opcode ReserveLocals, Number (localsSize ?b), Number 0, Number 0]
          @ drop (length p0 + 4) (program ?b)
          @ [Opcode ReleaseLocals, Number 0, Number 0, Number 0]"
    using program_set_in_range[of "int (length p0)" "program ?b"] len
    by (simp add: operand_simps)
  have l0: "locals ?i = 0" "localsSize ?i = 0"
    by (simp_all add: new_BasicOpcodeBuilder_def reserve_simps)
  then have hw: "localsSize ?b = Max ((\<lambda>n. locals (snd (run (take n calls) ?i))) ` {0..length calls})"
    by (intro localsSize_run) simp
  have cnt: "localsSize ?b =
           Max ((\<lambda>n. int (count_list (take n calls) CallLocal)
                      - int (count_list (take n calls) CallReleaseLocal)) ` {0..length calls})"
    if ok: "fst (run calls ?i) = Inr ()"
  proof -
    have "(\<lambda>n. locals (snd (run (take n calls) ?i))) ` {0..length calls}
        = (\<lambda>n. int (count_list (take n calls) CallLocal)
                      - int (count_list (take n calls) CallReleaseLocal)) ` {0..length calls}"
    proof (rule image_cong)
      fix n
      have "fst (run (take n calls) ?i) = Inr ()" using ok by (rule run_take_ok)
      then show "locals (snd (run (take n calls) ?i)) =
         int (count_list (take n calls) CallLocal) - int (count_list (take n calls) CallReleaseLocal)"
        using locals_run[of "take n calls" ?i] l0 by simp
    qed simp
    then show ?thesis using hw by simp
  qed
  show ?thesis unfolding Let_def using s0 p0 s fin cnt by blast
qed

text \<open>
  The compilation that allocates two locals, releases one, emits \<open>Pop\<close>, allocates a local
  again and releases both: two locals at most are allocated at one time, and \<open>finalize\<close>
  writes 2 into the reserved slot.
\<close>

theorem finalize_writes_reserved_slot_witness:
  "fst (run [CallLocal, CallLocal, CallReleaseLocal, CallPush Pop (Number 0) (Number 0) (Number 0),
             CallLocal, CallReleaseLocal, CallReleaseLocal]
          (new_BasicOpcodeBuilder () [])) = Inr ()
   \<and> Max ((\<lambda>n. int (count_list (take n
         [CallLocal, CallLocal, CallReleaseLocal, CallPush Pop (Number 0) (Number 0) (Number 0),
          CallLocal, CallReleaseLocal, CallReleaseLocal]) CallLocal)
                      - int (count_list (take n
         [CallLocal, CallLocal, CallReleaseLocal, CallPush Pop (Number 0) (Number 0) (Number 0),
          CallLocal, CallReleaseLocal, CallReleaseLocal]) CallReleaseLocal)) ` {0..7}) = 2
   \<and> program (snd (finalize (snd (run
         [CallLocal, CallLocal, CallReleaseLocal, CallPush Pop (Number 0) (Number 0) (Number 0),
          CallLocal, CallReleaseLocal, CallReleaseLocal]
         (new_BasicOpcodeBuilder () [])))))
     = [Opcode ReserveLocals, Number 2, Number 0, Number 0,
        Opcode Pop, Number 0, Number 0, Number 0,
        Opcode ReleaseLocals, Number 0, Number 0, Number 0]"
proof -
  let ?cs = "[CallLocal, CallLocal, CallReleaseLocal, CallPush Pop (Number 0) (Number 0) (Number 0),
             CallLocal, CallReleaseLocal, CallReleaseLocal]"
  let ?b = "snd (run ?cs (new_BasicOpcodeBuilder () []))"
  have ok: "fst (run ?cs (new_BasicOpcodeBuilder () [])) = Inr ()"
    by (simp add: eval_builder)
  have len: "length ?cs = 7" by simp
  have m: "Max ((\<lambda>n. int (count_list (take n ?cs) CallLocal)
                      - int (count_list (take n ?cs) CallReleaseLocal)) ` {0..7}) = 2"
  proof -
    have s: "{0..7::nat} = {0, 1, 2, 3, 4, 5, 6, 7}" by auto
    show ?thesis unfolding s by simp
  qed
  have "localsSize ?b = 2 \<and> program (snd (finalize ?b)) =
        take 0 (program ?b)
          @ [Opcode ReserveLocals, Number (localsSize ?b), Number 0, Number 0]
          @ drop 4 (program ?b)
          @ [Opcode ReleaseLocals, Number 0, Number 0, Number 0]"
    using finalize_writes_reserved_slot [of "()" "[]" ?cs] ok m
    unfolding Let_def len by simp
  moreover have "program ?b = [Opcode ReserveLocals, Number 0, Number 0, Number 0,
        Opcode Pop, Number 0, Number 0, Number 0]"
    by (simp add: eval_builder)
  ultimately show ?thesis using ok m by simp
qed

section \<open>Label scopes\<close>

text \<open>
  Claim C8. Unbalanced use of label scopes is a fatal fault: with no label scope open,
  \<open>stopLabels\<close> raises an error, and so does every method that records a label, a jump,
  a range or an iteration target (\<open>label\<close>, \<open>jump\<close>, \<open>jumpIf\<close>, \<open>jumpUnless\<close>, \<open>enter\<close>,
  \<open>enterList\<close>, \<open>iterate\<close>); none of them returns normally.
\<close>

theorem unbalanced_label_scope_raises:
  "labelsStack b = [] \<Longrightarrow>
     fst (stopLabels b) = Inl (Error ''unbalanced push and pop labels'')
   \<and> fst (label name b) = Inl (Error ''bug: not in a label stack'')
   \<and> fst (jump target b) = Inl (Error ''bug: not in a label stack'')
   \<and> fst (jumpIf target b) = Inl (Error ''bug: not in a label stack'')
   \<and> fst (jumpUnless target b) = Inl (Error ''bug: not in a label stack'')
   \<and> fst (enter start' end' b) = Inl (Error ''bug: not in a label stack'')
   \<and> fst (enterList start' end' b) = Inl (Error ''bug: not in a label stack'')
   \<and> fst (iterate breaks start' end' b) = Inl (Error ''bug: not in a label stack'')"
  by (simp add: stopLabels_simps label_def jump_def jumpIf_def jumpUnless_def enter_def
      enterList_def iterate_def Let_def update_labels_simps reserve_simps)

theorem unbalanced_label_scope_raises_witness:
  "labelsStack (new_BasicOpcodeBuilder () []) = []
   \<and> fst (stopLabels (new_BasicOpcodeBuilder () [])) = Inl (Error ''unbalanced push and pop labels'')
   \<and> fst (label ''END'' (new_BasicOpcodeBuilder () [])) = Inl (Error ''bug: not in a label stack'')
   \<and> fst (jump ''END'' (new_BasicOpcodeBuilder () [])) = Inl (Error ''bug: not in a label stack'')
   \<and> fst (enter ''BEGIN'' ''END'' (new_BasicOpcodeBuilder () [])) = Inl (Error ''bug: not in a label stack'')
   \<and> fst (iterate ''BREAK'' ''BEGIN'' ''END'' (new_BasicOpcodeBuilder () []))
         = Inl (Error ''bug: not in a label stack'')"
proof -
  have e: "labelsStack (new_BasicOpcodeBuilder () []) = []"
    by (simp add: new_BasicOpcodeBuilder_def reserve_simps)
  show ?thesis
    using e unbalanced_label_scope_raises[OF e, of "''END''" "''END''" "''BEGIN''" "''END''" "''BREAK''"]
    by simp
qed

text \<open>
  Claim C3, as stated, asks that closing a label scope fail when a jump, range or iterate
  instruction recorded in it names a label that was never placed. It does not: a scope is
  opened, a jump to the label \<open>MISSING\<close> is recorded, no label is placed, and \<open>stopLabels\<close>
  returns normally; the program that \<open>finalize\<close> then completes still holds the jump, its
  target operand 0.
\<close>

theorem unresolved_label_survives:
  "fst (stopLabels (snd (jump ''MISSING'' (startLabels (new_BasicOpcodeBuilder () []))))) = Inr ()
   \<and> labels (hd (labelsStack (snd (jump ''MISSING'' (startLabels (new_BasicOpcodeBuilder () []))))))
        ''MISSING'' = None
   \<and> program (snd (finalize (snd (stopLabels (snd (jump ''MISSING''
        (startLabels (new_BasicOpcodeBuilder () []))))))))
      = [Opcode ReserveLocals, Number 0, Number 0, Number 0,
         Opcode Jump, Number 0, Number 0, Number 0,
         Opcode ReleaseLocals, Number 0, Number 0, Number 0]"
  by (simp add: stopLabels_def jump_def Let_def update_labels_def labels_getter_def reserve_def
      push_def program_push_def startLabels_def new_BasicOpcodeBuilder_def new_Labels_def
      Labels_jump_def Labels_patch_def patch_jump_def program_set_def store_def operand_def
      label_offset_def pos_def program_current_def program_next_def finalize_def)

text \<open>
  Claim C3, amended. \<open>Labels.patch\<close> checks nothing: on every builder reached from the
  constructor, closing the open scope returns normally whatever labels its recorded
  instructions name. A jump whose target was never placed in the scope is patched with
  the operand 0 (the \<^verbatim>\<open>undefined\<close> the lookup gives, stored as the default), and a range or
  an iteration whose end label was never placed gets \<^verbatim>\<open>NaN\<close> as its end operand. The only
  fault of \<open>stopLabels\<close> is the one for a missing scope (claim C8).
\<close>

theorem unresolved_labels_are_not_detected:
  assumes "b = snd (run calls (new_BasicOpcodeBuilder k p0))" and "labelsStack b = l # ls"
  shows "fst (stopLabels b) = Inr ()
    \<and> (\<forall>j\<in>set (jumps l). labels l (jump_target j) = None \<longrightarrow>
          instruction_at (program (snd (stopLabels b))) (jump_at j)
            = [Opcode (jump_Target j), Number 0, Number 0, Number 0])
    \<and> (\<forall>r\<in>set (ranges l). labels l (range_end r) = None \<longrightarrow>
          instruction_at (program (snd (stopLabels b))) (range_at r) ! 2 = NaN)
    \<and> (\<forall>i\<in>set (iters l). labels l (iter_end i) = None \<longrightarrow>
          instruction_at (program (snd (stopLabels b))) (iter_at i) ! 3 = NaN)"
proof -
  note ok = reached_scope_ok[OF assms]
  note p = program_stopLabels[OF assms(2)]
  have "fst (stopLabels b) = Inr ()" using assms(2) by (simp add: stopLabels_simps)
  moreover have "\<forall>j\<in>set (jumps l). labels l (jump_target j) = None \<longrightarrow>
          instruction_at (program (snd (stopLabels b))) (jump_at j)
            = [Opcode (jump_Target j), Number 0, Number 0, Number 0]"
    using Labels_patch_jump[OF ok] by (simp add: p label_offset_def operand_simps)
  moreover have "\<forall>r\<in>set (ranges l). labels l (range_end r) = None \<longrightarrow>
          instruction_at (program (snd (stopLabels b))) (range_at r) ! 2 = NaN"
    using Labels_patch_range[OF ok] by (simp add: p label_offset_minus_4_def operand_simps)
  moreover have "\<forall>i\<in>set (iters l). labels l (iter_end i) = None \<longrightarrow>
          instruction_at (program (snd (stopLabels b))) (iter_at i) ! 3 = NaN"
    using Labels_patch_iter[OF ok] by (simp add: p label_offset_minus_4_def operand_simps)
  ultimately show ?thesis by blast
qed

theorem unresolved_labels_are_not_detected_witness:
  "fst (stopLabels (snd (run [CallStartLabels, CallJump ''MISSING'']
         (new_BasicOpcodeBuilder () [])))) = Inr ()
   \<and> instruction_at (program (snd (stopLabels (snd (run [CallStartLabels, CallJump ''MISSING'']
         (new_BasicOpcodeBuilder () []))))))  4
       = [Opcode Jump, Number 0, Number 0, Number 0]"
proof -
  let ?b = "snd (run [CallStartLabels, CallJump ''MISSING''] (new_BasicOpcodeBuilder () []))"
  let ?l = "\<lparr>labels = Map.empty, jumps = [\<lparr>jump_at = 4, jump_target = ''MISSING'', jump_Target = Jump\<rparr>],
             ranges = [], iters = []\<rparr>"
  have s: "labelsStack ?b = ?l # []" by (simp add: eval_builder)
  show ?thesis
    using unresolved_labels_are_not_detected[OF refl s] by simp
qed

text \<open>
  Claim C10. On every builder reached from the constructor, closing the open label scope
  patches each jump recorded in it with the target label's recorded offset as it is, and
  each range (\<open>Enter\<close>, \<open>EnterList\<close>) and each \<open>Iterate\<close> recorded in it with its end
  label's recorded offset minus 4, one instruction width. A label records the offset of
  the next instruction to be pushed, 4 past the last instruction pushed (\<open>pos\<close>), so the
  patched end operand is the offset of the instruction just before the end label.
\<close>

theorem stopLabels_patches_recorded_sites:
  assumes "b = snd (run calls (new_BasicOpcodeBuilder k p0))" and "labelsStack b = l # ls"
  shows "(\<forall>j\<in>set (jumps l). \<forall>n. labels l (jump_target j) = Some n \<longrightarrow>
          instruction_at (program (snd (stopLabels b))) (jump_at j)
            = [Opcode (jump_Target j), Number n, Number 0, Number 0])
    \<and> (\<forall>r\<in>set (ranges l). \<forall>e. labels l (range_end r) = Some e \<longrightarrow>
          instruction_at (program (snd (stopLabels b))) (range_at r)
            = [Opcode (range_Range r), operand (label_offset l (range_start r)),
               Number (e - 4), Number 0])
    \<and> (\<forall>i\<in>set (iters l). \<forall>e. labels l (iter_end i) = Some e \<longrightarrow>
          instruction_at (program (snd (stopLabels b))) (iter_at i)
            = [Opcode Iterate, operand (label_offset l (iter_breaks i)),
               operand (label_offset l (iter_start i)), Number (e - 4)])
    \<and> labels (hd (labelsStack (snd (label name b)))) name = Some (pos b + 4)"
proof -
  note ok = reached_scope_ok[OF assms]
  note p = program_stopLabels[OF assms(2)]
  have "\<forall>j\<in>set (jumps l). \<forall>n. labels l (jump_target j) = Some n \<longrightarrow>
          instruction_at (program (snd (stopLabels b))) (jump_at j)
            = [Opcode (jump_Target j), Number n, Number 0, Number 0]"
    using Labels_patch_jump[OF ok] by (simp add: p label_offset_def operand_simps)
  moreover have "\<forall>r\<in>set (ranges l). \<forall>e. labels l (range_end r) = Some e \<longrightarrow>
          instruction_at (program (snd (stopLabels b))) (range_at r)
            = [Opcode (range_Range r), operand (label_offset l (range_start r)),
               Number (e - 4), Number 0]"
    using Labels_patch_range[OF ok] by (simp add: p label_offset_minus_4_def operand_simps)
  moreover have "\<forall>i\<in>set (iters l). \<forall>e. labels l (iter_end i) = Some e \<longrightarrow>
          instruction_at (program (snd (stopLabels b))) (iter_at i)
            = [Opcode Iterate, operand (label_offset l (iter_breaks i)),
               operand (label_offset l (iter_start i)), Number (e - 4)]"
    using Labels_patch_iter[OF ok] by (simp add: p label_offset_minus_4_def operand_simps)
  moreover have "labels (hd (labelsStack (snd (label name b)))) name = Some (pos b + 4)"
    using assms(2)
    by (simp add: label_def update_labels_simps Labels_label_def nextPos_def pos_def
        program_next_def program_current_def)
  ultimately show ?thesis by blast
qed

theorem stopLabels_patches_recorded_sites_witness:
  "instruction_at (program (snd (stopLabels (snd (run
      [CallStartLabels, CallEnterList ''BEGIN'' ''END'', CallLabel ''ITER'',
       CallIterate ''BREAK'' ''BEGIN'' ''END'', CallLabel ''BEGIN'',
       CallPush Pop (Number 0) (Number 0) (Number 0), CallLabel ''END'',
       CallPush Exit (Number 0) (Number 0) (Number 0), CallJump ''ITER'', CallLabel ''BREAK'',
       CallPush ExitList (Number 0) (Number 0) (Number 0)]
      (new_BasicOpcodeBuilder () [])))))) 20
     = [Opcode Jump, Number 8, Number 0, Number 0]
   \<and> instruction_at (program (snd (stopLabels (snd (run
      [CallStartLabels, CallEnterList ''BEGIN'' ''END'', CallLabel ''ITER'',
       CallIterate ''BREAK'' ''BEGIN'' ''END'', CallLabel ''BEGIN'',
       CallPush Pop (Number 0) (Number 0) (Number 0), CallLabel ''END'',
       CallPush Exit (Number 0) (Number 0) (Number 0), CallJump ''ITER'', CallLabel ''BREAK'',
       CallPush ExitList (Number 0) (Number 0) (Number 0)]
      (new_BasicOpcodeBuilder () [])))))) 4
     = [Opcode EnterList, Number 12, Number 12, Number 0]
   \<and> instruction_at (program (snd (stopLabels (snd (run
      [CallStartLabels, CallEnterList ''BEGIN'' ''END'', CallLabel ''ITER'',
       CallIterate ''BREAK'' ''BEGIN'' ''END'', CallLabel ''BEGIN'',
       CallPush Pop (Number 0) (Number 0) (Number 0), CallLabel ''END'',
       CallPush Exit (Number 0) (Number 0) (Number 0), CallJump ''ITER'', CallLabel ''BREAK'',
       CallPush ExitList (Number 0) (Number 0) (Number 0)]
      (new_BasicOpcodeBuilder () [])))))) 8
     = [Opcode Iterate, Number 24, Number 12, Number 12]"
proof -
  let ?b = "snd (run
      [CallStartLabels, CallEnterList ''BEGIN'' ''END'', CallLabel ''ITER'',
       CallIterate ''BREAK'' ''BEGIN'' ''END'', CallLabel ''BEGIN'',
       CallPush Pop (Number 0) (Number 0) (Number 0), CallLabel ''END'',
       CallPush Exit (Number 0) (Number 0) (Number 0), CallJump ''ITER'', CallLabel ''BREAK'',
       CallPush ExitList (Number 0) (Number 0) (Number 0)]
      (new_BasicOpcodeBuilder () []))"
  have s: "labelsStack ?b = hd (labelsStack ?b) # []" by (simp add: eval_builder)
  show ?thesis
    using stopLabels_patches_recorded_sites[OF refl s, of "''END''"]
    by (simp add: eval_builder)
qed

section \<open>Primitive literals\<close>

text \<open>
  Claim C4, as stated, asks that \<open>primitive\<close> raise an error and emit nothing for every
  value that is not a number, a string, a boolean, \<^verbatim>\<open>null\<close> or \<^verbatim>\<open>undefined\<close>. For an object
  it does not: \<^verbatim>\<open>typeof\<close> says \<^verbatim>\<open>'object'\<close>, the case that assumes \<^verbatim>\<open>null\<close>, and the literal is
  emitted with the encoding of \<^verbatim>\<open>null\<close>.
\<close>

theorem primitive_object_counterexample:
  "primitive
     (\<lparr>constants_string = (\<lambda>s cs. (1, cs)), constants_block = (\<lambda>b cs. (2, cs)),
       constants_other = (\<lambda>v cs. (3, cs))\<rparr> :: (unit, unit, unit) Constants)
     JSObject (new_BasicOpcodeBuilder () [])
   = (Inr (), (new_BasicOpcodeBuilder () [])\<lparr>program :=
        [Opcode ReserveLocals, Number 0, Number 0, Number 0,
         Opcode Primitive, Number (- 2147483646), Number 0, Number 0]\<rparr>)"
  by (simp add: primitive_def push_primitive_def encode_primitive_def eval_builder)

text \<open>
  Claim C4, amended. For a number that is an integer from 0 up to, not including, 2^30,
  for a string whose handle in the constant pool is in that range, and for a boolean,
  \<^verbatim>\<open>null\<close> or \<^verbatim>\<open>undefined\<close>, \<open>primitive\<close> emits one \<open>Primitive\<close> instruction whose single operand
  holds the type tag in its two top bits (0 for a number, 1 for a string, 2 for the rest)
  and the payload in the thirty bits below (the number, the handle, 0 or 1 for a boolean,
  2 for \<^verbatim>\<open>null\<close>, 3 for \<^verbatim>\<open>undefined\<close>). An object other than \<^verbatim>\<open>null\<close> is taken for \<^verbatim>\<open>null\<close> and
  emitted as \<^verbatim>\<open>null\<close> is. A value of any other type (a function, a symbol) raises the
  error and emits nothing.
\<close>

theorem primitive_tag_and_payload:
  assumes "case v of
             JSNumber n \<Rightarrow> 0 \<le> n \<and> n < 2 ^ 30
           | JSString s \<Rightarrow> 0 \<le> fst (constants_string K s (constants b))
                          \<and> fst (constants_string K s (constants b)) < 2 ^ 30
           | _ \<Rightarrow> True"
  shows "case v of
           JSFunction \<Rightarrow>
             primitive K v b = (Inl (Error ''Invalid primitive passed to pushPrimitive''), b)
         | JSSymbol \<Rightarrow>
             primitive K v b = (Inl (Error ''Invalid primitive passed to pushPrimitive''), b)
         | _ \<Rightarrow>
             (\<exists>op1 cs.
                primitive K v b =
                  (Inr (), b\<lparr>constants := cs,
                             program := program b @ [Opcode Primitive, Number op1, Number 0, Number 0]\<rparr>)
              \<and> primitive_flag op1 = (case v of JSNumber _ \<Rightarrow> 0 | JSString _ \<Rightarrow> 1 | _ \<Rightarrow> 2)
              \<and> primitive_payload op1 =
                  (case v of
                     JSNumber n \<Rightarrow> n
                   | JSString s \<Rightarrow> fst (constants_string K s (constants b))
                   | JSBoolean t \<Rightarrow> of_bool t
                   | JSNull \<Rightarrow> 2
                   | JSObject \<Rightarrow> 2
                   | JSUndefined \<Rightarrow> 3
                   | _ \<Rightarrow> 0))"
proof (cases v)
  case (JSNumber n)
  then have r: "0 \<le> n" "n < 2 ^ 30" using assms by simp_all
  show ?thesis
    unfolding JSNumber
    by (simp add: primitive_def push_primitive_def push_def program_push_def
        primitive_flag_encode[OF r] primitive_payload_encode[OF r])
       (rule exI[where x = "sint (encode_primitive 0 n)"],
        simp add: primitive_flag_encode[OF r] primitive_payload_encode[OF r],
        rule exI[where x = "constants b"], simp)
next
  case (JSString s)
  obtain h cs where hc: "constants_string K s (constants b) = (h, cs)"
    by (cases "constants_string K s (constants b)")
  then have r: "0 \<le> h" "h < 2 ^ 30" using assms JSString by simp_all
  show ?thesis
    unfolding JSString
    by (simp add: primitive_def push_primitive_def push_def program_push_def string'_def hc)
       (rule exI[where x = "sint (encode_primitive 1 h)"],
        simp add: primitive_flag_encode[OF r] primitive_payload_encode[OF r],
        rule exI[where x = cs], simp)
next
  case (JSBoolean t)
  have r: "0 \<le> (1 :: int)" "(1 :: int) < 2 ^ 30" "0 \<le> (0 :: int)" "(0 :: int) < 2 ^ 30"
    by simp_all
  show ?thesis
  proof (cases t)
    case True
    then show ?thesis
      unfolding JSBoolean
      by (simp add: primitive_def push_primitive_def push_def program_push_def)
         (rule exI[where x = "sint (encode_primitive 2 1)"],
          simp add: primitive_flag_encode[OF r(1,2)] primitive_payload_encode[OF r(1,2)],
          rule exI[where x = "constants b"], simp)
  next
    case False
    then show ?thesis
      unfolding JSBoolean
      by (simp add: primitive_def push_primitive_def push_def program_push_def)
         (rule exI[where x = "sint (encode_primitive 2 0)"],
          simp add: primitive_flag_encode[OF r(3,4)] primitive_payload_encode[OF r(3,4)],
          rule exI[where x = "constants b"], simp)
  qed
next
  case JSNull
  have r: "0 \<le> (2 :: int)" "(2 :: int) < 2 ^ 30" by simp_all
  show ?thesis
    unfolding JSNull
    by (simp add: primitive_def push_primitive_def push_def program_push_def)
       (rule exI[where x = "sint (encode_primitive 2 2)"],
        simp add: primitive_flag_encode[OF r] primitive_payload_encode[OF r],
        rule exI[where x = "constants b"], simp)
next
  case JSUndefined
  have r: "0 \<le> (3 :: int)" "(3 :: int) < 2 ^ 30" by simp_all
  show ?thesis
    unfolding JSUndefined
    by (simp add: primitive_def push_primitive_def push_def program_push_def)
       (rule exI[where x = "sint (encode_primitive 2 3)"],
        simp add: primitive_flag_encode[OF r] primitive_payload_encode[OF r],
        rule exI[where x = "constants b"], simp)
next
  case JSObject
  have r: "0 \<le> (2 :: int)" "(2 :: int) < 2 ^ 30" by simp_all
  show ?thesis
    unfolding JSObject
    by (simp add: primitive_def push_primitive_def push_def program_push_def)
       (rule exI[where x = "sint (encode_primitive 2 2)"],
        simp add: primitive_flag_encode[OF r] primitive_payload_encode[OF r],
        rule exI[where x = "constants b"], simp)
next
  case JSFunction
  then show ?thesis by (simp add: primitive_def)
next
  case JSSymbol
  then show ?thesis by (simp add: primitive_def)
qed

theorem primitive_tag_and_payload_witness:
  "(\<exists>op1 cs.
      primitive
        (\<lparr>constants_string = (\<lambda>s cs. (1, cs)), constants_block = (\<lambda>b cs. (2, cs)),
          constants_other = (\<lambda>v cs. (3, cs))\<rparr> :: (unit, unit, unit) Constants)
        (JSString ''hi'') (new_BasicOpcodeBuilder () [])
      = (Inr (), (new_BasicOpcodeBuilder () [])\<lparr>constants := cs, program :=
           [Opcode ReserveLocals, Number 0, Number 0, Number 0,
            Opcode Primitive, Number op1, Number 0, Number 0]\<rparr>)
    \<and> primitive_flag op1 = 1 \<and> primitive_payload op1 = 1)"
  using primitive_tag_and_payload[where v = "JSString ''hi''"
      and K = "\<lparr>constants_string = (\<lambda>s cs. (1, cs)), constants_block = (\<lambda>b cs. (2, cs)),
        constants_other = (\<lambda>v cs. (3, cs))\<rparr> :: (unit, unit, unit) Constants"
      and b = "new_BasicOpcodeBuilder () []"]
  by (simp add: new_BasicOpcodeBuilder_def reserve_def push_def program_push_def program_next_def)

section \<open>Component invocation\<close>

text \<open>
  Claim C5. Every call of \<open>invokeComponent\<close> emits its instructions in this order: it
  allocates a local register for the component state (the register is the value \<open>state\<close>
  of the counter of locals, the counter goes up by one and the high-water mark follows
  it) and stores the state in it, pushes the default and the inverse block and lets
  \<^verbatim>\<open>compileComponentArgs\<close> compile the named arguments, pushes a dynamic scope, pushes the
  component arguments, creates the component, registers its destructor, begins the
  transaction, gets the component's self and layout, invokes the layout, runs the hooks
  \<open>DidCreateElement\<close> and \<open>DidRenderLayout\<close>, pops the scope and the dynamic scope, commits
  the transaction, and releases the register (the counter goes down by one). When
  \<^verbatim>\<open>compileComponentArgs\<close> throws, the exception leaves \<open>invokeComponent\<close> with the builder
  as it is then.
\<close>

theorem invokeComponent_sequence:
  "let state = locals b;
       (h1, c1) = (case blk of None \<Rightarrow> (0, constants b) | Some x \<Rightarrow> constants_block K x (constants b));
       (h2, c2) = (case inverse' of None \<Rightarrow> (0, c1) | Some x \<Rightarrow> constants_block K x c1);
       b4 = b\<lparr>constants := c2,
               locals := state + 1,
               localsSize := max (localsSize b) (state + 1),
               program := program b @
                  [Opcode SetComponentState, Number state, Number 0, Number 0,
                   Opcode PushBlock, Number h1, Number 0, Number 0,
                   Opcode PushBlock, Number h2, Number 0, Number 0]\<rparr>
   in case cca hash b4 of
        (Inl e, b5) \<Rightarrow> invokeComponent K scan cca attrs hash blk inverse' b = (Inl e, b5)
      | (Inr (slots, count, names), b5) \<Rightarrow>
          (let (h3, c3) = constants_other K (Dict slots) (constants b5);
               (h4, c4) = constants_other K (InvokeDynamicLayout (map_option scan attrs) names) c3
           in invokeComponent K scan cca attrs hash blk inverse' b =
                (Inr (),
                 b5\<lparr>constants := c4,
                    locals := locals b5 - 1,
                    program := program b5 @
                      [Opcode PushDynamicScope, Number 0, Number 0, Number 0,
                       Opcode PushComponentArgs, Number 0, Number count, Number h3,
                       Opcode CreateComponent, Number 1, Number state, Number 0,
                       Opcode RegisterComponentDestructor, Number state, Number 0, Number 0,
                       Opcode BeginComponentTransaction, Number 0, Number 0, Number 0,
                       Opcode GetComponentSelf, Number state, Number 0, Number 0,
                       Opcode GetComponentLayout, Number state, Number 0, Number 0,
                       Opcode InvokeDynamic, Number h4, Number 0, Number 0,
                       Opcode DidCreateElement, Number state, Number 0, Number 0,
                       Opcode DidRenderLayout, Number state, Number 0, Number 0,
                       Opcode PopScope, Number 0, Number 0, Number 0,
                       Opcode PopDynamicScope, Number 0, Number 0, Number 0,
                       Opcode CommitComponentTransaction, Number 0, Number 0, Number 0]\<rparr>))"
proof -
  define state where "state = locals b"
  define hc1 where
    "hc1 = (case blk of None \<Rightarrow> (0, constants b) | Some x \<Rightarrow> constants_block K x (constants b))"
  define hc2 where
    "hc2 = (case inverse' of None \<Rightarrow> (0, snd hc1) | Some x \<Rightarrow> constants_block K x (snd hc1))"
  define b4 where
    "b4 = b\<lparr>constants := snd hc2,
               locals := state + 1,
               localsSize := max (localsSize b) (state + 1),
               program := program b @
                  [Opcode SetComponentState, Number state, Number 0, Number 0,
                   Opcode PushBlock, Number (fst hc1), Number 0, Number 0,
                   Opcode PushBlock, Number (fst hc2), Number 0, Number 0]\<rparr>"
  have pre: "pushBlock K inverse' (pushBlock K blk (setComponentState state (snd (local b)))) = b4"
    by (simp add: b4_def hc1_def hc2_def state_def local_def Let_def setComponentState_def
        pushBlock_def block_def push_def program_push_def split_beta max_def
        split: option.splits)
  have post: "\<And>slots count names b5.
    releaseLocal (commitComponentTransaction (popDynamicScope (popScope (didRenderLayout state
      (didCreateElement state
        (invokeDynamic K (InvokeDynamicLayout (map_option scan attrs) names)
          (getComponentLayout state (getComponentSelf state (beginComponentTransaction
            (registerComponentDestructor state (createComponent state True False
              (pushComponentArgs K 0 count (Dict slots) (pushDynamicScope b5)))))))))))))
    = b5\<lparr>constants :=
            snd (constants_other K (InvokeDynamicLayout (map_option scan attrs) names)
                  (snd (constants_other K (Dict slots) (constants b5)))),
          locals := locals b5 - 1,
          program := program b5 @
            [Opcode PushDynamicScope, Number 0, Number 0, Number 0,
             Opcode PushComponentArgs, Number 0, Number count,
               Number (fst (constants_other K (Dict slots) (constants b5))),
             Opcode CreateComponent, Number 1, Number state, Number 0,
             Opcode RegisterComponentDestructor, Number state, Number 0, Number 0,
             Opcode BeginComponentTransaction, Number 0, Number 0, Number 0,
             Opcode GetComponentSelf, Number state, Number 0, Number 0,
             Opcode GetComponentLayout, Number state, Number 0, Number 0,
             Opcode InvokeDynamic,
               Number (fst (constants_other K (InvokeDynamicLayout (map_option scan attrs) names)
                  (snd (constants_other K (Dict slots) (constants b5))))), Number 0, Number 0,
             Opcode DidCreateElement, Number state, Number 0, Number 0,
             Opcode DidRenderLayout, Number state, Number 0, Number 0,
             Opcode PopScope, Number 0, Number 0, Number 0,
             Opcode PopDynamicScope, Number 0, Number 0, Number 0,
             Opcode CommitComponentTransaction, Number 0, Number 0, Number 0]\<rparr>"
    by (simp add: push_def program_push_def pushDynamicScope_def pushComponentArgs_def
      createComponent_def registerComponentDestructor_def beginComponentTransaction_def
      getComponentSelf_def getComponentLayout_def invokeDynamic_def other_def
      didCreateElement_def didRenderLayout_def popScope_def popDynamicScope_def
      commitComponentTransaction_def releaseLocal_def split_beta Let_def)
  have fl: "fst (local b) = state" by (simp add: state_def local_simps)
  obtain r b5 where c: "cca hash b4 = (r, b5)" by (cases "cca hash b4")
  have "case cca hash b4 of
        (Inl e, b5) \<Rightarrow> invokeComponent K scan cca attrs hash blk inverse' b = (Inl e, b5)
      | (Inr (slots, count, names), b5) \<Rightarrow>
          (let (h3, c3) = constants_other K (Dict slots) (constants b5);
               (h4, c4) = constants_other K (InvokeDynamicLayout (map_option scan attrs) names) c3
           in invokeComponent K scan cca attrs hash blk inverse' b =
                (Inr (),
                 b5\<lparr>constants := c4,
                    locals := locals b5 - 1,
                    program := program b5 @
                      [Opcode PushDynamicScope, Number 0, Number 0, Number 0,
                       Opcode PushComponentArgs, Number 0, Number count, Number h3,
                       Opcode CreateComponent, Number 1, Number state, Number 0,
                       Opcode RegisterComponentDestructor, Number state, Number 0, Number 0,
                       Opcode BeginComponentTransaction, Number 0, Number 0, Number 0,
                       Opcode GetComponentSelf, Number state, Number 0, Number 0,
                       Opcode GetComponentLayout, Number state, Number 0, Number 0,
                       Opcode InvokeDynamic, Number h4, Number 0, Number 0,
                       Opcode DidCreateElement, Number state, Number 0, Number 0,
                       Opcode DidRenderLayout, Number state, Number 0, Number 0,
                       Opcode PopScope, Number 0, Number 0, Number 0,
                       Opcode PopDynamicScope, Number 0, Number 0, Number 0,
                       Opcode CommitComponentTransaction, Number 0, Number 0, Number 0]\<rparr>))"
  proof (cases r)
    case (Inl e)
    then show ?thesis using c by (simp add: invokeComponent_def Let_def split_beta fl pre)
  next
    case (Inr t)
    obtain slots count names where t: "t = (slots, count, names)" by (cases t)
    show ?thesis
      using c Inr t by (simp add: invokeComponent_def Let_def split_beta fl pre post)
  qed
  then show ?thesis
    unfolding Let_def b4_def hc1_def hc2_def state_def by (simp add: split_beta)
qed

section \<open>Rehydration\<close>

text \<open>
  Claim C9. The template \<^verbatim>\<open>{{content}}\<close> rendered in Create mode with content "hello"
  gives the text node between the markers of its region (inside those of the whole
  output); rehydrated with content "goodbye", the text node is adopted and its value
  repaired: the final tree is the text "goodbye" and no node is removed.
\<close>

theorem mismatched_text_nodes:
  "Create [Content ''content''] [(''content'', TextValue ''hello'')]
     = [StartMarker, StartMarker, TextNode ''hello'', EndMarker, EndMarker]
   \<and> Rehydrate [Content ''content''] [(''content'', TextValue ''goodbye'')]
       (Create [Content ''content''] [(''content'', TextValue ''hello'')])
     = ([TextNode ''goodbye''], 0)"
  by (simp add: Create_def Rehydrate_def execute_def create_def removed_count_def)

end
